theory Spec2Isabelle
  imports Complex_Main
begin

section \<open>Numbers, vectors and arrays\<close>

text \<open>
  The driver computes with numpy \<open>float64\<close> values.  The embedding reads a finite
  \<open>float64\<close> as an exact real: rounding and overflow are not modelled.  A value that may
  also be an infinity or NaN is an \<open>npfloat\<close>.  numpy does not raise on a square root of
  a negative number, a division by zero or an operation on a non-finite operand; it returns
  the non-finite value.

  Non-finite values arise inside \<open>rotation_matrix_to_quaternion\<close>, whose results are
  therefore \<open>npfloat\<close> values.  They reach \<open>update_joint_position\<close> from outside, in a
  sensor reading, a field of the twist command or the gain, and \<open>np.clip\<close> passes NaN
  through.  The resolver is therefore embedded twice, from the same source lines: over the
  reals, for finite values, and over \<open>npfloat\<close> (the definitions named \<open>np_...\<close>), for
  values that may be non-finite.  Lemma \<open>np_update_joint_position_finite\<close> shows that the
  two agree on finite values.

  A one-dimensional array is the list of its entries, a two-dimensional array the list of
  its rows.
\<close>

type_synonym vec = "real list"
type_synonym mat = "real list list"

datatype py_error = IndexError | ValueError | ZeroDivisionError

datatype npfloat = Fin real | PosInf | NegInf | NaN

definition np_sqrt :: "real \<Rightarrow> npfloat" where
  "np_sqrt a = (if a < 0 then NaN else Fin (sqrt a))"

fun np_mul :: "npfloat \<Rightarrow> npfloat \<Rightarrow> npfloat" where
  "np_mul (Fin a) (Fin b) = Fin (a * b)"
| "np_mul NaN _ = NaN"
| "np_mul _ NaN = NaN"
| "np_mul (Fin a) PosInf = (if 0 < a then PosInf else if a < 0 then NegInf else NaN)"
| "np_mul (Fin a) NegInf = (if 0 < a then NegInf else if a < 0 then PosInf else NaN)"
| "np_mul PosInf (Fin b) = (if 0 < b then PosInf else if b < 0 then NegInf else NaN)"
| "np_mul NegInf (Fin b) = (if 0 < b then NegInf else if b < 0 then PosInf else NaN)"
| "np_mul PosInf PosInf = PosInf"
| "np_mul NegInf NegInf = PosInf"
| "np_mul PosInf NegInf = NegInf"
| "np_mul NegInf PosInf = NegInf"

text \<open>
  Division.  A zero divisor stands for \<open>+0.0\<close>: the only zero divisor of the source is
  \<open>4 * q_w\<close> with \<open>q_w\<close> a square root, which is never \<open>-0.0\<close>.
\<close>

fun np_div :: "npfloat \<Rightarrow> npfloat \<Rightarrow> npfloat" where
  "np_div (Fin a) (Fin b) =
     (if b \<noteq> 0 then Fin (a / b)
      else if 0 < a then PosInf else if a < 0 then NegInf else NaN)"
| "np_div NaN _ = NaN"
| "np_div _ NaN = NaN"
| "np_div (Fin a) PosInf = Fin 0"
| "np_div (Fin a) NegInf = Fin 0"
| "np_div PosInf (Fin b) = (if 0 \<le> b then PosInf else NegInf)"
| "np_div NegInf (Fin b) = (if 0 \<le> b then NegInf else PosInf)"
| "np_div PosInf PosInf = NaN"
| "np_div PosInf NegInf = NaN"
| "np_div NegInf PosInf = NaN"
| "np_div NegInf NegInf = NaN"

definition shape :: "nat \<Rightarrow> nat \<Rightarrow> 'a list list \<Rightarrow> bool" where
  "shape m n A \<longleftrightarrow> length A = m \<and> list_all (\<lambda>row. length row = n) A"

definition dot :: "vec \<Rightarrow> vec \<Rightarrow> real" where
  "dot xs ys = sum_list (map2 (*) xs ys)"

definition col :: "mat \<Rightarrow> nat \<Rightarrow> vec" where
  "col B j = map (\<lambda>row. row ! j) B"

definition ncols :: "mat \<Rightarrow> nat" where
  "ncols B = (case B of [] \<Rightarrow> 0 | row # _ \<Rightarrow> length row)"

definition matvec :: "mat \<Rightarrow> vec \<Rightarrow> vec" where
  "matvec A v = map (\<lambda>row. dot row v) A"

definition matmul :: "mat \<Rightarrow> mat \<Rightarrow> mat" where
  "matmul A B = map (\<lambda>row. map (\<lambda>j. dot row (col B j)) [0..<ncols B]) A"

definition mat_transpose :: "mat \<Rightarrow> mat" where
  "mat_transpose A = map (col A) [0..<ncols A]"

definition eye :: "nat \<Rightarrow> mat" where
  "eye n = map (\<lambda>i. map (\<lambda>j. if i = j then 1 else 0) [0..<n]) [0..<n]"

definition zeros :: "nat \<Rightarrow> nat \<Rightarrow> mat" where
  "zeros m n = replicate m (replicate n 0)"

definition vec_add :: "vec \<Rightarrow> vec \<Rightarrow> vec" where
  "vec_add xs ys = map2 (+) xs ys"

definition vec_sub :: "vec \<Rightarrow> vec \<Rightarrow> vec" where
  "vec_sub xs ys = map2 (-) xs ys"

definition mat_add :: "mat \<Rightarrow> mat \<Rightarrow> mat" where
  "mat_add A B = map2 vec_add A B"

definition mat_sub :: "mat \<Rightarrow> mat \<Rightarrow> mat" where
  "mat_sub A B = map2 vec_sub A B"

text \<open>\<open>v.reshape(-1, 1)\<close> of a one-dimensional array and \<open>A.flatten()\<close>.\<close>

definition reshape_col :: "vec \<Rightarrow> mat" where
  "reshape_col v = map (\<lambda>a. [a]) v"

definition flatten :: "mat \<Rightarrow> vec" where
  "flatten A = concat A"

text \<open>
  \<open>np.clip(a, lo, hi)\<close> is \<open>minimum(hi, maximum(a, lo))\<close>, entry by entry.  \<open>clip\<close> is
  the routine on finite entries; \<open>np_clip\<close> below is the routine on entries that may be
  NaN or infinite.
\<close>

definition clip :: "vec \<Rightarrow> real \<Rightarrow> real \<Rightarrow> vec" where
  "clip a lo hi = map (\<lambda>v. min hi (max lo v)) a"

definition deg2rad :: "real \<Rightarrow> real" where
  "deg2rad d = d * (pi / 180)"

section \<open>The orientation extractor\<close>

text \<open>
  \<open>SnakeDriver.rotation_matrix_to_quaternion\<close>.  The argument is a two-dimensional
  array; \<open>r[i, j]\<close> raises \<open>IndexError\<close> when the array has fewer than three rows or
  columns.  The result is the Python list \<open>[q_x, q_y, q_z, q_w]\<close>.
\<close>

definition rotation_matrix_to_quaternion :: "mat \<Rightarrow> py_error + npfloat list" where
  "rotation_matrix_to_quaternion r =
     (if \<not> (3 \<le> length r \<and> 3 \<le> length (r ! 0) \<and> 3 \<le> length (r ! 1) \<and> 3 \<le> length (r ! 2))
      then Inl IndexError
      else
        let q_w = np_div (np_sqrt (1 + r ! 0 ! 0 + r ! 1 ! 1 + r ! 2 ! 2)) (Fin 2);
            q_x = np_div (Fin (r ! 2 ! 1 - r ! 1 ! 2)) (np_mul (Fin 4) q_w);
            q_y = np_div (Fin (r ! 0 ! 2 - r ! 2 ! 0)) (np_mul (Fin 4) q_w);
            q_z = np_div (Fin (r ! 1 ! 0 - r ! 0 ! 1)) (np_mul (Fin 4) q_w)
        in Inr [q_x, q_y, q_z, q_w])"

text \<open>
  What the claims about the extractor speak of: a proper rotation matrix (orthonormal,
  determinant one), its trace, and the rotation matrix that a quaternion \<open>(x, y, z, w)\<close>
  represents.  These follow the spec's words; the source has no counterpart.
\<close>

definition det3 :: "mat \<Rightarrow> real" where
  "det3 r = r ! 0 ! 0 * (r ! 1 ! 1 * r ! 2 ! 2 - r ! 1 ! 2 * r ! 2 ! 1)
          - r ! 0 ! 1 * (r ! 1 ! 0 * r ! 2 ! 2 - r ! 1 ! 2 * r ! 2 ! 0)
          + r ! 0 ! 2 * (r ! 1 ! 0 * r ! 2 ! 1 - r ! 1 ! 1 * r ! 2 ! 0)"

definition trace3 :: "mat \<Rightarrow> real" where
  "trace3 r = r ! 0 ! 0 + r ! 1 ! 1 + r ! 2 ! 2"

definition proper_rotation :: "mat \<Rightarrow> bool" where
  "proper_rotation r \<longleftrightarrow>
     shape 3 3 r \<and> matmul r (mat_transpose r) = eye 3 \<and> det3 r = 1"

definition quaternion_matrix :: "real \<Rightarrow> real \<Rightarrow> real \<Rightarrow> real \<Rightarrow> mat" where
  "quaternion_matrix x y z w =
     [[1 - 2 * (y * y + z * z), 2 * (x * y - z * w), 2 * (x * z + y * w)],
      [2 * (x * y + z * w), 1 - 2 * (x * x + z * z), 2 * (y * z - x * w)],
      [2 * (x * z - y * w), 2 * (y * z + x * w), 1 - 2 * (x * x + y * y)]]"

definition quat_norm :: "real \<Rightarrow> real \<Rightarrow> real \<Rightarrow> real \<Rightarrow> real" where
  "quat_norm x y z w = sqrt (x * x + y * y + z * z + w * w)"

definition rot_z :: "real \<Rightarrow> mat" where
  "rot_z t = [[cos t, - sin t, 0], [sin t, cos t, 0], [0, 0, 1]]"

text \<open>The same conditions on the nine entries, rows \<open>(a, b, c)\<close>, \<open>(d, e, f)\<close>, \<open>(g, h, i)\<close>.\<close>

definition so3 ::
  "real \<Rightarrow> real \<Rightarrow> real \<Rightarrow> real \<Rightarrow> real \<Rightarrow> real \<Rightarrow> real \<Rightarrow> real \<Rightarrow> real \<Rightarrow> bool" where
  "so3 a b c d e f g h i \<longleftrightarrow>
     a * a + b * b + c * c = 1 \<and> d * d + e * e + f * f = 1 \<and> g * g + h * h + i * i = 1 \<and>
     a * d + b * e + c * f = 0 \<and> a * g + b * h + c * i = 0 \<and> d * g + e * h + f * i = 0 \<and>
     a * (e * i - f * h) - b * (d * i - f * g) + c * (d * h - e * g) = 1"

section \<open>The pseudo-inverse and the kinematic model\<close>

text \<open>
  \<open>numpy.linalg.pinv\<close> is a library routine outside the repository.  It enters the model
  as a parameter \<open>pinv\<close> of the functions that call it.  Where a theorem needs more than
  the shape of its result, it assumes what the routine's documentation and the spec's
  glossary say the pseudo-inverse is: for every right-hand side \<open>b\<close>, \<open>A\<^sup>+ b\<close> is the
  least-squares solution of \<open>A x = b\<close> of minimum norm.
\<close>

definition sq_norm :: "vec \<Rightarrow> real" where
  "sq_norm v = dot v v"

definition residual :: "mat \<Rightarrow> vec \<Rightarrow> vec \<Rightarrow> real" where
  "residual A x b = sq_norm (vec_sub (matvec A x) b)"

definition least_squares :: "mat \<Rightarrow> vec \<Rightarrow> vec \<Rightarrow> bool" where
  "least_squares A b x \<longleftrightarrow>
     length x = ncols A \<and> (\<forall>y. length y = ncols A \<longrightarrow> residual A x b \<le> residual A y b)"

definition moore_penrose :: "mat \<Rightarrow> mat \<Rightarrow> bool" where
  "moore_penrose A X \<longleftrightarrow>
     shape (ncols A) (length A) X \<and>
     (\<forall>b. length b = length A \<longrightarrow>
        least_squares A b (matvec X b) \<and>
        (\<forall>y. least_squares A b y \<longrightarrow> sq_norm (matvec X b) \<le> sq_norm y))"

text \<open>
  Class \<open>Robot\<close> of module \<open>snakesim.robot\<close> is not among the sources.  Its two
  methods, \<open>jacobian(q)\<close> and \<open>q0dot(q, k0)\<close>, are the fields of a record that the
  resolver takes as a parameter; what a theorem needs of them is among its assumptions.
  The driver adds the result of \<open>q0dot\<close> to \<open>(JT @ dx).reshape(-1, 1)\<close> and flattens the
  sum, so \<open>q0dot\<close> returns a column: an array of \<open>N_JOINTS\<close> rows with one entry each.
\<close>

record robot =
  jacobian :: "vec \<Rightarrow> mat"
  q0dot :: "vec \<Rightarrow> real \<Rightarrow> mat"

section \<open>The differential inverse-kinematics resolver\<close>

definition N_JOINTS :: nat where
  "N_JOINTS = 7"

definition RAD_120 :: real where
  "RAD_120 = deg2rad 120"

text \<open>
  \<open>SnakeDriver.update_joint_position\<close>.  The three definitions before it name the parts
  of the source's expression for \<open>dq\<close> and of its \<open>return\<close> line.  The model covers the
  shapes the driver works with: seven joint angles, a velocity of three components, a
  Jacobian of three rows and seven columns, its pseudo-inverse of seven rows and three
  columns, and a column of seven entries from \<open>q0dot\<close>.  On operands that do not fit
  numpy raises \<open>ValueError\<close>; operands of other shapes that numpy would broadcast are
  outside the model and are mapped to the same error.
\<close>

definition task_velocity :: "robot \<Rightarrow> (mat \<Rightarrow> mat) \<Rightarrow> vec \<Rightarrow> vec \<Rightarrow> mat" where
  "task_velocity rb pinv q dx =
     (let J = jacobian rb q; JT = pinv J in reshape_col (matvec JT dx))"

definition null_space_velocity :: "robot \<Rightarrow> (mat \<Rightarrow> mat) \<Rightarrow> vec \<Rightarrow> real \<Rightarrow> mat" where
  "null_space_velocity rb pinv q k0 =
     (let J = jacobian rb q; JT = pinv J; q0dot = q0dot rb q k0
      in matmul (mat_sub (eye N_JOINTS) (matmul JT J)) q0dot)"

definition candidate :: "robot \<Rightarrow> (mat \<Rightarrow> mat) \<Rightarrow> vec \<Rightarrow> vec \<Rightarrow> real \<Rightarrow> real \<Rightarrow> vec" where
  "candidate rb pinv q dx k0 dt =
     (let dq = mat_add (task_velocity rb pinv q dx) (null_space_velocity rb pinv q k0)
      in vec_add q (map (\<lambda>v. v * dt) (flatten dq)))"

definition well_shaped :: "robot \<Rightarrow> (mat \<Rightarrow> mat) \<Rightarrow> vec \<Rightarrow> vec \<Rightarrow> real \<Rightarrow> bool" where
  "well_shaped rb pinv q dx k0 \<longleftrightarrow>
     length q = N_JOINTS \<and> length dx = 3 \<and>
     shape 3 N_JOINTS (jacobian rb q) \<and>
     shape N_JOINTS 3 (pinv (jacobian rb q)) \<and>
     shape N_JOINTS 1 (q0dot rb q k0)"

definition update_joint_position ::
  "robot \<Rightarrow> (mat \<Rightarrow> mat) \<Rightarrow> vec \<Rightarrow> vec \<Rightarrow> real \<Rightarrow> real \<Rightarrow> py_error + vec" where
  "update_joint_position rb pinv q dx k0 dt =
     (if \<not> well_shaped rb pinv q dx k0 then Inl ValueError
      else Inr (clip (candidate rb pinv q dx k0 dt) (- RAD_120) RAD_120))"

section \<open>The resolver on non-finite values\<close>

text \<open>
  Arithmetic on \<open>npfloat\<close>: NaN is absorbing, also in \<open>0 * NaN\<close>; the sum of the two
  infinities and the product of zero and an infinity are NaN.  \<open>np.maximum\<close> and
  \<open>np.minimum\<close> return NaN when an operand is NaN.  The arrays, the kinematic model and the
  resolver follow, definition by definition, the ones over the reals above.  As there, the
  parameter \<open>pinv\<close> stands for a call of \<open>numpy.linalg.pinv\<close> that returns (the routine
  raises \<open>LinAlgError\<close> when its decomposition does not converge), and \<open>np_well_shaped\<close>
  asks its result to have \<open>N_JOINTS\<close> rows and three columns.
\<close>

type_synonym npvec = "npfloat list"
type_synonym npmat = "npfloat list list"

fun np_add :: "npfloat \<Rightarrow> npfloat \<Rightarrow> npfloat" where
  "np_add (Fin a) (Fin b) = Fin (a + b)"
| "np_add NaN _ = NaN"
| "np_add _ NaN = NaN"
| "np_add PosInf NegInf = NaN"
| "np_add NegInf PosInf = NaN"
| "np_add PosInf _ = PosInf"
| "np_add _ PosInf = PosInf"
| "np_add NegInf _ = NegInf"
| "np_add _ NegInf = NegInf"

fun np_neg :: "npfloat \<Rightarrow> npfloat" where
  "np_neg (Fin a) = Fin (- a)"
| "np_neg PosInf = NegInf"
| "np_neg NegInf = PosInf"
| "np_neg NaN = NaN"

definition np_sub :: "npfloat \<Rightarrow> npfloat \<Rightarrow> npfloat" where
  "np_sub a b = np_add a (np_neg b)"

fun np_maximum :: "npfloat \<Rightarrow> npfloat \<Rightarrow> npfloat" where
  "np_maximum (Fin a) (Fin b) = Fin (max a b)"
| "np_maximum NaN _ = NaN"
| "np_maximum _ NaN = NaN"
| "np_maximum PosInf _ = PosInf"
| "np_maximum _ PosInf = PosInf"
| "np_maximum NegInf b = b"
| "np_maximum a NegInf = a"

fun np_minimum :: "npfloat \<Rightarrow> npfloat \<Rightarrow> npfloat" where
  "np_minimum (Fin a) (Fin b) = Fin (min a b)"
| "np_minimum NaN _ = NaN"
| "np_minimum _ NaN = NaN"
| "np_minimum NegInf _ = NegInf"
| "np_minimum _ NegInf = NegInf"
| "np_minimum PosInf b = b"
| "np_minimum a PosInf = a"

definition np_dot :: "npvec \<Rightarrow> npvec \<Rightarrow> npfloat" where
  "np_dot xs ys = foldr np_add (map2 np_mul xs ys) (Fin 0)"

definition np_col :: "npmat \<Rightarrow> nat \<Rightarrow> npvec" where
  "np_col B j = map (\<lambda>row. row ! j) B"

definition np_ncols :: "npmat \<Rightarrow> nat" where
  "np_ncols B = (case B of [] \<Rightarrow> 0 | row # _ \<Rightarrow> length row)"

definition np_matvec :: "npmat \<Rightarrow> npvec \<Rightarrow> npvec" where
  "np_matvec A v = map (\<lambda>row. np_dot row v) A"

definition np_matmul :: "npmat \<Rightarrow> npmat \<Rightarrow> npmat" where
  "np_matmul A B = map (\<lambda>row. map (\<lambda>j. np_dot row (np_col B j)) [0..<np_ncols B]) A"

definition np_eye :: "nat \<Rightarrow> npmat" where
  "np_eye n = map (\<lambda>i. map (\<lambda>j. if i = j then Fin 1 else Fin 0) [0..<n]) [0..<n]"

definition np_mat_add :: "npmat \<Rightarrow> npmat \<Rightarrow> npmat" where
  "np_mat_add A B = map2 (map2 np_add) A B"

definition np_mat_sub :: "npmat \<Rightarrow> npmat \<Rightarrow> npmat" where
  "np_mat_sub A B = map2 (map2 np_sub) A B"

definition np_clip :: "npvec \<Rightarrow> real \<Rightarrow> real \<Rightarrow> npvec" where
  "np_clip a lo hi = map (\<lambda>v. np_minimum (Fin hi) (np_maximum v (Fin lo))) a"

record np_robot =
  np_jacobian :: "npvec \<Rightarrow> npmat"
  np_q0dot :: "npvec \<Rightarrow> npfloat \<Rightarrow> npmat"

definition np_task_velocity :: "np_robot \<Rightarrow> (npmat \<Rightarrow> npmat) \<Rightarrow> npvec \<Rightarrow> npvec \<Rightarrow> npmat" where
  "np_task_velocity rb pinv q dx =
     (let J = np_jacobian rb q; JT = pinv J in map (\<lambda>a. [a]) (np_matvec JT dx))"

definition np_null_space_velocity ::
  "np_robot \<Rightarrow> (npmat \<Rightarrow> npmat) \<Rightarrow> npvec \<Rightarrow> npfloat \<Rightarrow> npmat" where
  "np_null_space_velocity rb pinv q k0 =
     (let J = np_jacobian rb q; JT = pinv J; q0dot = np_q0dot rb q k0
      in np_matmul (np_mat_sub (np_eye N_JOINTS) (np_matmul JT J)) q0dot)"

definition np_candidate ::
  "np_robot \<Rightarrow> (npmat \<Rightarrow> npmat) \<Rightarrow> npvec \<Rightarrow> npvec \<Rightarrow> npfloat \<Rightarrow> real \<Rightarrow> npvec" where
  "np_candidate rb pinv q dx k0 dt =
     (let dq = np_mat_add (np_task_velocity rb pinv q dx) (np_null_space_velocity rb pinv q k0)
      in map2 np_add q (map (\<lambda>v. np_mul v (Fin dt)) (concat dq)))"

definition np_well_shaped ::
  "np_robot \<Rightarrow> (npmat \<Rightarrow> npmat) \<Rightarrow> npvec \<Rightarrow> npvec \<Rightarrow> npfloat \<Rightarrow> bool" where
  "np_well_shaped rb pinv q dx k0 \<longleftrightarrow>
     length q = N_JOINTS \<and> length dx = 3 \<and>
     shape 3 N_JOINTS (np_jacobian rb q) \<and>
     shape N_JOINTS 3 (pinv (np_jacobian rb q)) \<and>
     shape N_JOINTS 1 (np_q0dot rb q k0)"

definition np_update_joint_position ::
  "np_robot \<Rightarrow> (npmat \<Rightarrow> npmat) \<Rightarrow> npvec \<Rightarrow> npvec \<Rightarrow> npfloat \<Rightarrow> real
   \<Rightarrow> py_error + npvec" where
  "np_update_joint_position rb pinv q dx k0 dt =
     (if \<not> np_well_shaped rb pinv q dx k0 then Inl ValueError
      else Inr (np_clip (np_candidate rb pinv q dx k0 dt) (- RAD_120) RAD_120))"

fun within_range :: "npfloat \<Rightarrow> bool" where
  "within_range (Fin v) = (- (2 * pi / 3) \<le> v \<and> v \<le> 2 * pi / 3)"
| "within_range _ = False"

definition fin_vec :: "vec \<Rightarrow> npvec" where
  "fin_vec v = map Fin v"

definition fin_mat :: "mat \<Rightarrow> npmat" where
  "fin_mat A = map (map Fin) A"

definition fin_robot :: "robot \<Rightarrow> np_robot \<Rightarrow> vec \<Rightarrow> real \<Rightarrow> bool" where
  "fin_robot rb nrb q k0 \<longleftrightarrow>
     np_jacobian nrb (fin_vec q) = fin_mat (jacobian rb q) \<and>
     np_q0dot nrb (fin_vec q) (Fin k0) = fin_mat (q0dot rb q k0)"

section \<open>The driver\<close>

text \<open>
  The messages: \<open>geometry_msgs/Twist\<close> and \<open>geometry_msgs/Pose\<close>, the \<open>Float64\<close> gain
  (its \<open>data\<close> field, a real), and the request and response of the \<open>JointState\<close>
  service.
\<close>

record vector3 =
  vec_x :: real
  vec_y :: real
  vec_z :: real

record twist =
  linear_v :: vector3
  angular_v :: vector3

record quaternion =
  quat_x :: npfloat
  quat_y :: npfloat
  quat_z :: npfloat
  quat_w :: npfloat

record pose =
  position :: vector3
  orientation :: quaternion

record response =
  success :: bool

text \<open>
  What \<open>rclpy.spin_once(node, timeout_sec=0)\<close> can run: at most one callback that is
  ready, for a message on \<open>target_twist\<close>, a message on \<open>target_gain\<close>, or a request to
  \<open>init_joint_state\<close> carrying the list \<open>joint_state\<close>.
\<close>

datatype event = TwistMsg twist | GainMsg real | InitJointState "real list"

text \<open>
  The driver's state.  \<open>motors\<close> holds the position last commanded to each of the
  rotational motors by \<open>setPosition\<close>, \<open>sim_steps\<close> counts the calls of the simulator's
  \<open>step()\<close>, each of which advances the simulation by \<open>basic_time_step\<close> milliseconds,
  \<open>published\<close> is what went out on \<open>end_effector_pose\<close> and \<open>replies\<close> what the service
  answered.  The sensor readings and the end effector's pose are the simulator's and are
  arguments of \<open>step\<close>.
\<close>

record driver =
  motors :: "real list"
  target_twist :: twist
  gain :: real
  basic_time_step :: real
  sim_steps :: nat
  published :: "pose list"
  replies :: "response list"

definition twist_callback :: "driver \<Rightarrow> twist \<Rightarrow> driver" where
  "twist_callback st msg = st\<lparr>target_twist := msg\<rparr>"

definition gain_callback :: "driver \<Rightarrow> real \<Rightarrow> driver" where
  "gain_callback st msg = st\<lparr>gain := msg\<rparr>"

text \<open>Python's \<open>int\<close> of a float truncates towards zero.\<close>

definition py_int :: "real \<Rightarrow> int" where
  "py_int r = (if 0 \<le> r then \<lfloor>r\<rfloor> else \<lceil>r\<rceil>)"

definition robot_step :: "driver \<Rightarrow> driver" where
  "robot_step st = st\<lparr>sim_steps := Suc (sim_steps st)\<rparr>"

fun robot_steps :: "nat \<Rightarrow> driver \<Rightarrow> driver" where
  "robot_steps 0 st = st"
| "robot_steps (Suc n) st = robot_steps n (robot_step st)"

text \<open>
  \<open>delay_simulation\<close>: \<open>range(n_iter)\<close> is empty for a negative \<open>n_iter\<close>; the division
  raises when the basic time step is zero.
\<close>

definition delay_simulation :: "driver \<Rightarrow> real \<Rightarrow> py_error + driver" where
  "delay_simulation st seconds =
     (if basic_time_step st = 0 then Inl ZeroDivisionError
      else
        let n_iter = py_int (1000 * seconds / basic_time_step st)
        in Inr (robot_steps (nat n_iter) st))"

text \<open>
  The loop \<open>for i, value in enumerate(values): self.__motors[i].setPosition(value)\<close>, from
  index \<open>i\<close> on: an index past the last motor raises \<open>IndexError\<close>.
\<close>

fun set_positions :: "nat \<Rightarrow> real list \<Rightarrow> real list \<Rightarrow> py_error + real list" where
  "set_positions i [] ms = Inr ms"
| "set_positions i (v # vs) ms =
     (if i < length ms then set_positions (Suc i) vs (ms[i := v]) else Inl IndexError)"

definition init_joint_state_callback :: "driver \<Rightarrow> real list \<Rightarrow> py_error + driver \<times> response" where
  "init_joint_state_callback st joint_state =
     (case set_positions 0 joint_state (motors st) of
        Inl e \<Rightarrow> Inl e
      | Inr ms \<Rightarrow>
          (case delay_simulation (st\<lparr>motors := ms\<rparr>) 1 of
             Inl e \<Rightarrow> Inl e
           | Inr st' \<Rightarrow> Inr (st', \<lparr>success = True\<rparr>)))"

definition spin_once :: "driver \<Rightarrow> event option \<Rightarrow> py_error + driver" where
  "spin_once st ev =
     (case ev of
        None \<Rightarrow> Inr st
      | Some (TwistMsg msg) \<Rightarrow> Inr (twist_callback st msg)
      | Some (GainMsg msg) \<Rightarrow> Inr (gain_callback st msg)
      | Some (InitJointState joint_state) \<Rightarrow>
          (case init_joint_state_callback st joint_state of
             Inl e \<Rightarrow> Inl e
           | Inr (st', resp) \<Rightarrow> Inr (st'\<lparr>replies := replies st' @ [resp]\<rparr>)))"

text \<open>
  \<open>get_end_effector_pose\<close>, from the sixteen numbers of the end effector's \<open>getPose()\<close>:
  \<open>reshape(4, 4)\<close> raises \<open>ValueError\<close> on any other count.
\<close>

definition reshape_4_4 :: "real list \<Rightarrow> py_error + mat" where
  "reshape_4_4 xs =
     (if length xs = 16
      then Inr [take 4 xs, take 4 (drop 4 xs), take 4 (drop 8 xs), take 4 (drop 12 xs)]
      else Inl ValueError)"

definition get_end_effector_pose :: "real list \<Rightarrow> py_error + pose" where
  "get_end_effector_pose end_eff =
     (case reshape_4_4 end_eff of
        Inl e \<Rightarrow> Inl e
      | Inr eff_pose \<Rightarrow>
          (case rotation_matrix_to_quaternion (map butlast (butlast eff_pose)) of
             Inl e \<Rightarrow> Inl e
           | Inr orientation_list \<Rightarrow>
               Inr \<lparr>position = \<lparr>vec_x = eff_pose ! 0 ! 3, vec_y = eff_pose ! 1 ! 3,
                                 vec_z = eff_pose ! 2 ! 3\<rparr>,
                    orientation = \<lparr>quat_x = orientation_list ! 0, quat_y = orientation_list ! 1,
                                    quat_z = orientation_list ! 2, quat_w = orientation_list ! 3\<rparr>\<rparr>))"

text \<open>
  \<open>step\<close>, one control cycle.  \<open>ev\<close> is what \<open>spin_once\<close> finds ready, \<open>sensors i\<close> the
  reading of position sensor \<open>i\<close>, \<open>end_eff\<close> the end effector's pose.  The resolver runs
  with its default \<open>dt = 0.032\<close>.
\<close>

definition step ::
  "robot \<Rightarrow> (mat \<Rightarrow> mat) \<Rightarrow> driver \<Rightarrow> event option \<Rightarrow> (nat \<Rightarrow> real) \<Rightarrow> real list
   \<Rightarrow> py_error + driver" where
  "step rb pinv st ev sensors end_eff =
     (case spin_once st ev of
        Inl e \<Rightarrow> Inl e
      | Inr st1 \<Rightarrow>
          let dx = [vec_x (linear_v (target_twist st1)), vec_y (linear_v (target_twist st1)),
                    vec_z (linear_v (target_twist st1))];
              read_joint_position = map sensors [0..<N_JOINTS]
          in (case update_joint_position rb pinv read_joint_position dx (gain st1) (32 / 1000) of
                Inl e \<Rightarrow> Inl e
              | Inr target_joint_position \<Rightarrow>
                  (case set_positions 0 target_joint_position (motors st1) of
                     Inl e \<Rightarrow> Inl e
                   | Inr ms \<Rightarrow>
                       (case get_end_effector_pose end_eff of
                          Inl e \<Rightarrow> Inl e
                        | Inr p \<Rightarrow> Inr (st1\<lparr>motors := ms, published := published st1 @ [p]\<rparr>)))))"

text \<open>
  Two received commands (or two states, or two events) that differ at most in the angular
  components of a twist.
\<close>

definition same_linear :: "twist \<Rightarrow> twist \<Rightarrow> bool" where
  "same_linear t1 t2 \<longleftrightarrow> linear_v t1 = linear_v t2"

fun same_linear_event :: "event option \<Rightarrow> event option \<Rightarrow> bool" where
  "same_linear_event (Some (TwistMsg t1)) (Some (TwistMsg t2)) = same_linear t1 t2"
| "same_linear_event e1 e2 = (e1 = e2)"

definition same_but_angular :: "driver \<Rightarrow> driver \<Rightarrow> bool" where
  "same_but_angular s1 s2 \<longleftrightarrow>
     same_linear (target_twist s1) (target_twist s2) \<and> s2 = s1\<lparr>target_twist := target_twist s2\<rparr>"

section \<open>Example inputs\<close>

text \<open>
  Concrete inputs at which the theorems are instantiated.  Two kinematic models: one whose
  Jacobian has the first three unit vectors as rows, one whose Jacobian is zero; the
  posture gradient of both is \<open>- k0 * q\<close>, as a column.  The transpose, which is the
  pseudo-inverse of a matrix with orthonormal rows and of the zero matrix.  A driver state
  with seven motors and a basic time step of 32 ms, two twist commands that differ in their
  angular parts, and an end-effector pose.
\<close>

definition example_jacobian :: mat where
  "example_jacobian = [[1, 0, 0, 0, 0, 0, 0], [0, 1, 0, 0, 0, 0, 0], [0, 0, 1, 0, 0, 0, 0]]"

definition example_robot :: robot where
  "example_robot =
     \<lparr>jacobian = (\<lambda>q. example_jacobian), q0dot = (\<lambda>q k0. map (\<lambda>v. [k0 * (- v)]) q)\<rparr>"

definition example_pinv :: "mat \<Rightarrow> mat" where
  "example_pinv A = mat_transpose A"

definition example_twist :: twist where
  "example_twist =
     \<lparr>linear_v = \<lparr>vec_x = 1 / 100, vec_y = 0, vec_z = 0\<rparr>,
      angular_v = \<lparr>vec_x = 0, vec_y = 0, vec_z = 0\<rparr>\<rparr>"

definition example_driver :: driver where
  "example_driver =
     \<lparr>motors = [0, 0, 0, 0, 0, 0, 0], target_twist = example_twist, gain = 0,
      basic_time_step = 32, sim_steps = 0, published = [], replies = []\<rparr>"

definition example_turning_twist :: twist where
  "example_turning_twist = example_twist\<lparr>angular_v := \<lparr>vec_x = 1, vec_y = 2, vec_z = 3\<rparr>\<rparr>"

definition example_end_eff :: "real list" where
  "example_end_eff = [1, 0, 0, 1 / 2, 0, 1, 0, 0, 0, 0, 1, 1 / 4, 0, 0, 0, 1]"

definition singular_robot :: robot where
  "singular_robot =
     \<lparr>jacobian = (\<lambda>q. zeros 3 N_JOINTS), q0dot = (\<lambda>q k0. map (\<lambda>v. [k0 * (- v)]) q)\<rparr>"

definition example_np_robot :: np_robot where
  "example_np_robot =
     \<lparr>np_jacobian = (\<lambda>q. fin_mat example_jacobian),
      np_q0dot = (\<lambda>q k0. map (\<lambda>v. [np_mul k0 (np_neg v)]) q)\<rparr>"

definition example_np_pinv :: "npmat \<Rightarrow> npmat" where
  "example_np_pinv A = map (np_col A) [0..<np_ncols A]"

section \<open>Facts about proper rotations\<close>

lemma upt_3: "[0..<3] = [0, 1, 2]"
  by (simp add: upt_rec)

lemma shape_3_3_entries:
  assumes "shape 3 3 r"
  shows "\<exists>a b c d e f g h i. r = [[a, b, c], [d, e, f], [g, h, i]]"
proof -
  from assms have len: "length r = 3" and rows: "list_all (\<lambda>row. length row = 3) r"
    by (simp_all add: shape_def)
  from len obtain r0 r1 r2 where r: "r = [r0, r1, r2]"
    by (auto simp: numeral_3_eq_3 length_Suc_conv)
  from rows r have l: "length r0 = 3" "length r1 = 3" "length r2 = 3"
    by simp_all
  from l(1) obtain a b c where "r0 = [a, b, c]"
    by (auto simp: numeral_3_eq_3 length_Suc_conv)
  moreover from l(2) obtain d e f where "r1 = [d, e, f]"
    by (auto simp: numeral_3_eq_3 length_Suc_conv)
  moreover from l(3) obtain g h i where "r2 = [g, h, i]"
    by (auto simp: numeral_3_eq_3 length_Suc_conv)
  ultimately show ?thesis using r by blast
qed

lemma proper_rotation_entries:
  "proper_rotation [[a, b, c], [d, e, f], [g, h, i]] \<longleftrightarrow> so3 a b c d e f g h i"
  by (auto simp: proper_rotation_def shape_def matmul_def mat_transpose_def eye_def det3_def
      ncols_def col_def dot_def upt_3 so3_def algebra_simps)

lemma cross_unit:
  fixes a b c d e f g h i :: real
  assumes o11: "a*a + b*b + c*c = 1" and o22: "d*d + e*e + f*f = 1" and o33: "g*g + h*h + i*i = 1"
    and o23: "d*g + e*h + f*i = 0"
    and dt: "a*(e*i - f*h) + b*(f*g - d*i) + c*(d*h - e*g) = 1"
  shows "a = e*i - f*h \<and> b = f*g - d*i \<and> c = d*h - e*g"
proof -
  let ?u = "e*i - f*h" and ?v = "f*g - d*i" and ?w = "d*h - e*g"
  have lagr: "?u*?u + ?v*?v + ?w*?w = (d*d + e*e + f*f) * (g*g + h*h + i*i) - (d*g + e*h + f*i) * (d*g + e*h + f*i)"
    by (simp add: algebra_simps)
  have n: "?u*?u + ?v*?v + ?w*?w = 1"
    unfolding lagr o22 o33 o23 by simp
  have "(a - ?u)*(a - ?u) + (b - ?v)*(b - ?v) + (c - ?w)*(c - ?w)
      = (a*a + b*b + c*c) - 2 * (a*?u + b*?v + c*?w) + (?u*?u + ?v*?v + ?w*?w)"
    by (simp add: algebra_simps)
  also have "\<dots> = 0"
    unfolding o11 dt n by simp
  finally have z: "(a - ?u)*(a - ?u) + (b - ?v)*(b - ?v) + (c - ?w)*(c - ?w) = 0" .
  have "a - ?u = 0 \<and> b - ?v = 0 \<and> c - ?w = 0"
    using z by (simp add: sum_squares_eq_zero_iff add_nonneg_eq_0_iff)
  then show ?thesis by simp
qed

lemma so3_cofactors:
  assumes "so3 a b c d e f g h i"
  shows "a = e*i - f*h" "b = f*g - d*i" "c = d*h - e*g"
        "d = h*c - i*b" "e = i*a - g*c" "f = g*b - h*a"
        "g = b*f - c*e" "h = c*d - a*f" "i = a*e - b*d"
proof -
  from assms have o11: "a*a + b*b + c*c = 1" and o22: "d*d + e*e + f*f = 1"
    and o33: "g*g + h*h + i*i = 1" and o12: "a*d + b*e + c*f = 0"
    and o13: "a*g + b*h + c*i = 0" and o23: "d*g + e*h + f*i = 0"
    and dt: "a*(e*i - f*h) - b*(d*i - f*g) + c*(d*h - e*g) = 1"
    by (simp_all add: so3_def)
  have d1: "a*(e*i - f*h) + b*(f*g - d*i) + c*(d*h - e*g) = 1"
    using dt by (simp add: algebra_simps)
  have d2: "d*(h*c - i*b) + e*(i*a - g*c) + f*(g*b - h*a) = 1"
    using dt by (simp add: algebra_simps)
  have d3: "g*(b*f - c*e) + h*(c*d - a*f) + i*(a*e - b*d) = 1"
    using dt by (simp add: algebra_simps)
  have o31: "g*a + h*b + i*c = 0" using o13 by (simp add: algebra_simps)
  from cross_unit[OF o11 o22 o33 o23 d1]
  show "a = e*i - f*h" "b = f*g - d*i" "c = d*h - e*g" by simp_all
  from cross_unit[OF o22 o33 o11 o31 d2]
  show "d = h*c - i*b" "e = i*a - g*c" "f = g*b - h*a" by simp_all
  from cross_unit[OF o33 o11 o22 o12 d3]
  show "g = b*f - c*e" "h = c*d - a*f" "i = a*e - b*d" by simp_all
qed

lemma so3_columns:
  assumes "so3 a b c d e f g h i"
  shows "a*a + d*d + g*g = 1" "b*b + e*e + h*h = 1" "c*c + f*f + i*i = 1"
        "a*b + d*e + g*h = 0" "a*c + d*f + g*i = 0" "b*c + e*f + h*i = 0"
proof -
  note cf = so3_cofactors[OF assms]
  from assms have dt: "a*(e*i - f*h) - b*(d*i - f*g) + c*(d*h - e*g) = 1"
    by (simp add: so3_def)
  have "a*a + d*d + g*g = a*(e*i - f*h) + d*(h*c - i*b) + g*(b*f - c*e)"
    by (simp only: cf(1)[symmetric] cf(4)[symmetric] cf(7)[symmetric])
  also have "\<dots> = a*(e*i - f*h) - b*(d*i - f*g) + c*(d*h - e*g)"
    by (simp add: algebra_simps)
  finally show "a*a + d*d + g*g = 1" using dt by simp
  have "b*b + e*e + h*h = b*(f*g - d*i) + e*(i*a - g*c) + h*(c*d - a*f)"
    by (simp only: cf(2)[symmetric] cf(5)[symmetric] cf(8)[symmetric])
  also have "\<dots> = a*(e*i - f*h) - b*(d*i - f*g) + c*(d*h - e*g)"
    by (simp add: algebra_simps)
  finally show "b*b + e*e + h*h = 1" using dt by simp
  have "c*c + f*f + i*i = c*(d*h - e*g) + f*(g*b - h*a) + i*(a*e - b*d)"
    by (simp only: cf(3)[symmetric] cf(6)[symmetric] cf(9)[symmetric])
  also have "\<dots> = a*(e*i - f*h) - b*(d*i - f*g) + c*(d*h - e*g)"
    by (simp add: algebra_simps)
  finally show "c*c + f*f + i*i = 1" using dt by simp
  have "a*b + d*e + g*h = a*(f*g - d*i) + d*(i*a - g*c) + g*(c*d - a*f)"
    by (simp only: cf(2)[symmetric] cf(5)[symmetric] cf(8)[symmetric])
  also have "\<dots> = 0" by (simp add: algebra_simps)
  finally show "a*b + d*e + g*h = 0" .
  have "a*c + d*f + g*i = a*(d*h - e*g) + d*(g*b - h*a) + g*(a*e - b*d)"
    by (simp only: cf(3)[symmetric] cf(6)[symmetric] cf(9)[symmetric])
  also have "\<dots> = 0" by (simp add: algebra_simps)
  finally show "a*c + d*f + g*i = 0" .
  have "b*c + e*f + h*i = b*(d*h - e*g) + e*(g*b - h*a) + h*(a*e - b*d)"
    by (simp only: cf(3)[symmetric] cf(6)[symmetric] cf(9)[symmetric])
  also have "\<dots> = 0" by (simp add: algebra_simps)
  finally show "b*c + e*f + h*i = 0" .
qed


lemma so3_antisym_norm:
  assumes "so3 a b c d e f g h i"
  shows "(h - f)*(h - f) + (c - g)*(c - g) + (d - b)*(d - b)
         = (3 - (a + e + i)) * (1 + a + e + i)"
proof -
  note cf = so3_cofactors[OF assms]
  from assms have o11: "a*a + b*b + c*c = 1" and o22: "d*d + e*e + f*f = 1"
    and o33: "g*g + h*h + i*i = 1"
    by (simp_all add: so3_def)
  have "(h - f)*(h - f) + (c - g)*(c - g) + (d - b)*(d - b)
      = (a*a + b*b + c*c) + (d*d + e*e + f*f) + (g*g + h*h + i*i) - a*a - e*e - i*i
        + 2*(e*i - f*h) + 2*(i*a - g*c) + 2*(a*e - b*d) - 2*(e*i + i*a + a*e)"
    by (simp add: algebra_simps)
  also have "\<dots> = 1 + 1 + 1 - a*a - e*e - i*i + 2*a + 2*e + 2*i - 2*(e*i + i*a + a*e)"
    by (simp only: o11 o22 o33 cf(1)[symmetric] cf(5)[symmetric] cf(9)[symmetric])
  also have "\<dots> = (3 - (a + e + i)) * (1 + a + e + i)"
    by (simp add: algebra_simps)
  finally show ?thesis .
qed

lemma so3_diag:
  assumes "so3 a b c d e f g h i"
  shows "(c - g)*(c - g) + (d - b)*(d - b) = 2 * (1 + a + e + i) * (1 - a)"
        "(h - f)*(h - f) + (d - b)*(d - b) = 2 * (1 + a + e + i) * (1 - e)"
        "(h - f)*(h - f) + (c - g)*(c - g) = 2 * (1 + a + e + i) * (1 - i)"
proof -
  note cf = so3_cofactors[OF assms] and cl = so3_columns[OF assms]
  from assms have o11: "a*a + b*b + c*c = 1" and o22: "d*d + e*e + f*f = 1"
    and o33: "g*g + h*h + i*i = 1"
    by (simp_all add: so3_def)
  have "(c - g)*(c - g) + (d - b)*(d - b)
      = (a*a + b*b + c*c) + (a*a + d*d + g*g) - 2*(a*a)
        + 2*(i*a - g*c) + 2*(a*e - b*d) - 2*(i*a + a*e)"
    by (simp add: algebra_simps)
  also have "\<dots> = 1 + 1 - 2*(a*a) + 2*e + 2*i - 2*(i*a + a*e)"
    by (simp only: o11 cl(1) cf(5)[symmetric] cf(9)[symmetric])
  also have "\<dots> = 2 * (1 + a + e + i) * (1 - a)"
    by (simp add: algebra_simps)
  finally show "(c - g)*(c - g) + (d - b)*(d - b) = 2 * (1 + a + e + i) * (1 - a)" .
  have "(h - f)*(h - f) + (d - b)*(d - b)
      = (d*d + e*e + f*f) + (b*b + e*e + h*h) - 2*(e*e)
        + 2*(e*i - f*h) + 2*(a*e - b*d) - 2*(e*i + a*e)"
    by (simp add: algebra_simps)
  also have "\<dots> = 1 + 1 - 2*(e*e) + 2*a + 2*i - 2*(e*i + a*e)"
    by (simp only: o22 cl(2) cf(1)[symmetric] cf(9)[symmetric])
  also have "\<dots> = 2 * (1 + a + e + i) * (1 - e)"
    by (simp add: algebra_simps)
  finally show "(h - f)*(h - f) + (d - b)*(d - b) = 2 * (1 + a + e + i) * (1 - e)" .
  have "(h - f)*(h - f) + (c - g)*(c - g)
      = (g*g + h*h + i*i) + (c*c + f*f + i*i) - 2*(i*i)
        + 2*(e*i - f*h) + 2*(i*a - g*c) - 2*(e*i + i*a)"
    by (simp add: algebra_simps)
  also have "\<dots> = 1 + 1 - 2*(i*i) + 2*a + 2*e - 2*(e*i + i*a)"
    by (simp only: o33 cl(3) cf(1)[symmetric] cf(5)[symmetric])
  also have "\<dots> = 2 * (1 + a + e + i) * (1 - i)"
    by (simp add: algebra_simps)
  finally show "(h - f)*(h - f) + (c - g)*(c - g) = 2 * (1 + a + e + i) * (1 - i)" .
qed

lemma so3_offdiag:
  assumes "so3 a b c d e f g h i"
  shows "(h - f)*(c - g) = (1 + a + e + i) * (b + d)"
        "(h - f)*(d - b) = (1 + a + e + i) * (c + g)"
        "(c - g)*(d - b) = (1 + a + e + i) * (f + h)"
proof -
  note cf = so3_cofactors[OF assms] and cl = so3_columns[OF assms]
  from assms have o12: "a*d + b*e + c*f = 0"
    and o13: "a*g + b*h + c*i = 0" and o23: "d*g + e*h + f*i = 0"
    by (simp_all add: so3_def)
  have "(h - f)*(c - g)
      = (h*c - i*b) + (f*g - d*i) - (a*b + d*e + g*h) - (a*d + b*e + c*f)
        + (i*b + d*i + a*b + d*e + a*d + b*e)"
    by (simp add: algebra_simps)
  also have "\<dots> = d + b - 0 - 0 + (i*b + d*i + a*b + d*e + a*d + b*e)"
    by (simp only: cf(4)[symmetric] cf(2)[symmetric] cl(4) o12)
  also have "\<dots> = (1 + a + e + i) * (b + d)"
    by (simp add: algebra_simps)
  finally show "(h - f)*(c - g) = (1 + a + e + i) * (b + d)" .
  have "(h - f)*(d - b)
      = (d*h - e*g) + (b*f - c*e) - (a*g + b*h + c*i) - (a*c + d*f + g*i)
        + (e*g + c*e + a*g + c*i + a*c + g*i)"
    by (simp add: algebra_simps)
  also have "\<dots> = c + g - 0 - 0 + (e*g + c*e + a*g + c*i + a*c + g*i)"
    by (simp only: cf(3)[symmetric] cf(7)[symmetric] cl(5) o13)
  also have "\<dots> = (1 + a + e + i) * (c + g)"
    by (simp add: algebra_simps)
  finally show "(h - f)*(d - b) = (1 + a + e + i) * (c + g)" .
  have "(c - g)*(d - b)
      = (c*d - a*f) + (g*b - h*a) - (b*c + e*f + h*i) - (d*g + e*h + f*i)
        + (a*f + h*a + e*f + h*i + e*h + f*i)"
    by (simp add: algebra_simps)
  also have "\<dots> = h + f - 0 - 0 + (a*f + h*a + e*f + h*i + e*h + f*i)"
    by (simp only: cf(8)[symmetric] cf(6)[symmetric] cl(6) o23)
  also have "\<dots> = (1 + a + e + i) * (f + h)"
    by (simp add: algebra_simps)
  finally show "(c - g)*(d - b) = (1 + a + e + i) * (f + h)" .
qed


lemma so3_trace_ge:
  assumes "so3 a b c d e f g h i"
  shows "0 \<le> 1 + a + e + i"
proof (rule ccontr)
  assume "\<not> 0 \<le> 1 + a + e + i"
  then have neg: "1 + a + e + i < 0" by simp
  then have pos: "0 < 3 - (a + e + i)" by simp
  have "0 \<le> (h - f)*(h - f) + (c - g)*(c - g) + (d - b)*(d - b)"
    by (intro add_nonneg_nonneg zero_le_square)
  then have "0 \<le> (3 - (a + e + i)) * (1 + a + e + i)"
    by (simp only: so3_antisym_norm[OF assms])
  moreover have "(3 - (a + e + i)) * (1 + a + e + i) < 0"
    using pos neg by (rule mult_pos_neg)
  ultimately show False by simp
qed

lemma cancel_4t:
  fixes t p :: real
  assumes "t \<noteq> 0"
  shows "p * t / (4 * t) = p / 4" "2 * t * p / (4 * t) = p / 2" "t * p / (4 * t) = p / 4"
  using assms by simp_all

lemma so3_quaternion:
  fixes a b c d e f g h i :: real
  assumes R: "so3 a b c d e f g h i" and t: "0 < 1 + a + e + i"
  defines "w \<equiv> sqrt (1 + a + e + i) / 2"
  defines "x \<equiv> (h - f) / (4 * w)" and "y \<equiv> (c - g) / (4 * w)" and "z \<equiv> (d - b) / (4 * w)"
  shows "x*x + y*y + z*z + w*w = 1"
    and "1 - 2 * (y*y + z*z) = a" and "2 * (x*y - z*w) = b" and "2 * (x*z + y*w) = c"
    and "2 * (x*y + z*w) = d" and "1 - 2 * (x*x + z*z) = e" and "2 * (y*z - x*w) = f"
    and "2 * (x*z - y*w) = g" and "2 * (y*z + x*w) = h" and "1 - 2 * (x*x + y*y) = i"
proof -
  let ?t = "1 + a + e + i"
  have w0: "0 < w" using t by (simp add: w_def)
  have kk: "(4 * w) * (4 * w) = 4 * ?t"
  proof -
    have "sqrt ?t * sqrt ?t = ?t" using t by simp
    then show ?thesis by (simp add: w_def)
  qed
  have ww: "w * w = ?t / 4"
    using kk by simp
  have pr: "\<And>p q. (p / (4 * w)) * (q / (4 * w)) = p * q / (4 * ?t)"
    by (simp only: times_divide_times_eq kk)
  have pw: "\<And>p. (p / (4 * w)) * w = p / 4"
    using w0 by simp
  have xx: "x*x = (h - f)*(h - f) / (4 * ?t)" and yy: "y*y = (c - g)*(c - g) / (4 * ?t)"
    and zz: "z*z = (d - b)*(d - b) / (4 * ?t)" and xy: "x*y = (h - f)*(c - g) / (4 * ?t)"
    and xz: "x*z = (h - f)*(d - b) / (4 * ?t)" and yz: "y*z = (c - g)*(d - b) / (4 * ?t)"
    by (simp_all only: x_def y_def z_def pr)
  have xw: "x*w = (h - f) / 4" and yw: "y*w = (c - g) / 4" and zw: "z*w = (d - b) / 4"
    by (simp_all only: x_def y_def z_def pw)
  have t0: "?t \<noteq> 0" using t by simp
  have "x*x + y*y + z*z + w*w
      = ((h - f)*(h - f) + (c - g)*(c - g) + (d - b)*(d - b)) / (4 * ?t) + ?t / 4"
    by (simp only: xx yy zz ww add_divide_distrib)
  also have "\<dots> = (3 - (a + e + i)) * ?t / (4 * ?t) + ?t / 4"
    by (simp only: so3_antisym_norm[OF R])
  also have "\<dots> = (3 - (a + e + i)) / 4 + ?t / 4" by (simp only: cancel_4t(1)[OF t0])
  also have "\<dots> = 1" by (simp add: field_simps)
  finally show "x*x + y*y + z*z + w*w = 1" .
  have "y*y + z*z = ((c - g)*(c - g) + (d - b)*(d - b)) / (4 * ?t)"
    by (simp only: yy zz add_divide_distrib)
  also have "\<dots> = 2 * ?t * (1 - a) / (4 * ?t)" by (simp only: so3_diag(1)[OF R])
  also have "\<dots> = (1 - a) / 2" by (simp only: cancel_4t(2)[OF t0])
  finally show "1 - 2 * (y*y + z*z) = a" by simp
  have "x*x + z*z = ((h - f)*(h - f) + (d - b)*(d - b)) / (4 * ?t)"
    by (simp only: xx zz add_divide_distrib)
  also have "\<dots> = 2 * ?t * (1 - e) / (4 * ?t)" by (simp only: so3_diag(2)[OF R])
  also have "\<dots> = (1 - e) / 2" by (simp only: cancel_4t(2)[OF t0])
  finally show "1 - 2 * (x*x + z*z) = e" by simp
  have "x*x + y*y = ((h - f)*(h - f) + (c - g)*(c - g)) / (4 * ?t)"
    by (simp only: xx yy add_divide_distrib)
  also have "\<dots> = 2 * ?t * (1 - i) / (4 * ?t)" by (simp only: so3_diag(3)[OF R])
  also have "\<dots> = (1 - i) / 2" by (simp only: cancel_4t(2)[OF t0])
  finally show "1 - 2 * (x*x + y*y) = i" by simp
  have "x*y = ?t * (b + d) / (4 * ?t)" by (simp only: xy so3_offdiag(1)[OF R])
  also have "\<dots> = (b + d) / 4" by (simp only: cancel_4t(3)[OF t0])
  finally have xy': "x*y = (b + d) / 4" .
  have "x*z = ?t * (c + g) / (4 * ?t)" by (simp only: xz so3_offdiag(2)[OF R])
  also have "\<dots> = (c + g) / 4" by (simp only: cancel_4t(3)[OF t0])
  finally have xz': "x*z = (c + g) / 4" .
  have "y*z = ?t * (f + h) / (4 * ?t)" by (simp only: yz so3_offdiag(3)[OF R])
  also have "\<dots> = (f + h) / 4" by (simp only: cancel_4t(3)[OF t0])
  finally have yz': "y*z = (f + h) / 4" .
  show "2 * (x*y - z*w) = b" unfolding xy' zw by (simp add: field_simps)
  show "2 * (x*y + z*w) = d" unfolding xy' zw by (simp add: field_simps)
  show "2 * (x*z + y*w) = c" unfolding xz' yw by (simp add: field_simps)
  show "2 * (x*z - y*w) = g" unfolding xz' yw by (simp add: field_simps)
  show "2 * (y*z - x*w) = f" unfolding yz' xw by (simp add: field_simps)
  show "2 * (y*z + x*w) = h" unfolding yz' xw by (simp add: field_simps)
qed


section \<open>The orientation extractor: claims\<close>

lemma extractor_entries:
  "rotation_matrix_to_quaternion [[a, b, c], [d, e, f], [g, h, i]] =
     Inr [np_div (Fin (h - f)) (np_mul (Fin 4) (np_div (np_sqrt (1 + a + e + i)) (Fin 2))),
          np_div (Fin (c - g)) (np_mul (Fin 4) (np_div (np_sqrt (1 + a + e + i)) (Fin 2))),
          np_div (Fin (d - b)) (np_mul (Fin 4) (np_div (np_sqrt (1 + a + e + i)) (Fin 2))),
          np_div (np_sqrt (1 + a + e + i)) (Fin 2)]"
  by (simp add: rotation_matrix_to_quaternion_def Let_def)



text \<open>
  Claim C5.  There is a proper rotation of 180 degrees, the half turn about the first axis,
  whose trace is \<open>-1\<close>, for which the extractor computes \<open>w = 0\<close>, divides by \<open>4 * w = 0\<close>
  without a guard, and returns NaN (zero divided by zero) for each of \<open>x\<close>, \<open>y\<close> and \<open>z\<close>.
\<close>

theorem half_turn_divides_by_zero:
  "proper_rotation [[1, 0, 0], [0, -1, 0], [0, 0, -1::real]] \<and>
   trace3 [[1, 0, 0], [0, -1, 0], [0, 0, -1::real]] = -1 \<and>
   np_div (np_sqrt (1 + trace3 [[1, 0, 0], [0, -1, 0], [0, 0, -1::real]])) (Fin 2) = Fin 0 \<and>
   np_mul (Fin 4) (Fin 0) = Fin 0 \<and>
   rotation_matrix_to_quaternion [[1, 0, 0], [0, -1, 0], [0, 0, -1::real]] = Inr [NaN, NaN, NaN, Fin 0]"
  by (simp add: proper_rotation_entries so3_def trace3_def extractor_entries np_sqrt_def)

lemma extractor_proper_rotation:
  assumes R: "proper_rotation r" and tr: "trace3 r \<noteq> -1"
  shows "\<exists>x y z w. rotation_matrix_to_quaternion r = Inr [Fin x, Fin y, Fin z, Fin w] \<and>
           quat_norm x y z w = 1 \<and> quaternion_matrix x y z w = r"
proof -
  from R have "shape 3 3 r" by (simp add: proper_rotation_def)
  from shape_3_3_entries[OF this] obtain a b c d e f g h i
    where r: "r = [[a, b, c], [d, e, f], [g, h, i]]" by blast
  from R have so: "so3 a b c d e f g h i"
    by (simp add: r proper_rotation_entries)
  from tr have "1 + a + e + i \<noteq> 0" by (simp add: r trace3_def)
  with so3_trace_ge[OF so] have t: "0 < 1 + a + e + i" by simp
  let ?w = "sqrt (1 + a + e + i) / 2"
  let ?x = "(h - f) / (4 * ?w)" and ?y = "(c - g) / (4 * ?w)" and ?z = "(d - b) / (4 * ?w)"
  have w0: "4 * ?w \<noteq> 0" using t by simp
  have qw: "np_div (np_sqrt (1 + a + e + i)) (Fin 2) = Fin ?w"
    using t by (simp add: np_sqrt_def)
  have dv: "\<And>p. np_div (Fin p) (np_mul (Fin 4) (Fin ?w)) = Fin (p / (4 * ?w))"
    using w0 by simp
  have ex: "rotation_matrix_to_quaternion r = Inr [Fin ?x, Fin ?y, Fin ?z, Fin ?w]"
    unfolding r extractor_entries qw dv ..
  note q = so3_quaternion[OF so t]
  have "quat_norm ?x ?y ?z ?w = 1"
    unfolding quat_norm_def q(1) by simp
  moreover have "quaternion_matrix ?x ?y ?z ?w = r"
    unfolding quaternion_matrix_def r q(2-10) ..
  ultimately show ?thesis using ex by blast
qed

lemma extractor_identity:
  "rotation_matrix_to_quaternion (eye 3) = Inr [Fin 0, Fin 0, Fin 0, Fin 1]"
  by (simp add: eye_def upt_3 extractor_entries np_sqrt_def)

lemma extractor_quarter_turn:
  "rotation_matrix_to_quaternion (rot_z (pi / 2)) = Inr [Fin 0, Fin 0, Fin (sin (pi / 4)), Fin (cos (pi / 4))]"
proof -
  have "(2::real) / (4 * (sqrt 2 / 2)) = sqrt 2 / 2"
    by (simp add: field_simps)
  then show ?thesis
    by (simp add: rot_z_def extractor_entries np_sqrt_def sin_45 cos_45)
qed


lemma proper_rotation_rot_z: "proper_rotation (rot_z t)"
proof -
  have "cos t * cos t + sin t * sin t = 1"
    using sin_cos_squared_add2[of t] by (simp add: power2_eq_square)
  then show ?thesis
    by (simp add: rot_z_def proper_rotation_entries so3_def algebra_simps)
qed

text \<open>
  Claim C4.  For every proper rotation matrix whose trace is not \<open>-1\<close> the extractor
  returns four finite numbers \<open>(x, y, z, w)\<close> of norm one, and the rotation matrix of this
  quaternion is the given matrix (the quaternion \<open>-q\<close> has the same matrix).  The identity
  matrix gives \<open>(0, 0, 0, 1)\<close>, the rotation by 90 degrees about the third axis gives
  \<open>(0, 0, sin 45\<degree>, cos 45\<degree>)\<close>.
\<close>

theorem extractor_unit_quaternion:
  "(\<forall>r. proper_rotation r \<and> trace3 r \<noteq> -1 \<longrightarrow>
      (\<exists>x y z w. rotation_matrix_to_quaternion r = Inr [Fin x, Fin y, Fin z, Fin w] \<and>
         quat_norm x y z w = 1 \<and> quaternion_matrix x y z w = r)) \<and>
   rotation_matrix_to_quaternion (eye 3) = Inr [Fin 0, Fin 0, Fin 0, Fin 1] \<and>
   rotation_matrix_to_quaternion (rot_z (pi / 2)) =
     Inr [Fin 0, Fin 0, Fin (sin (pi / 4)), Fin (cos (pi / 4))]"
  using extractor_proper_rotation extractor_identity extractor_quarter_turn by blast

theorem extractor_unit_quaternion_witness:
  "proper_rotation (rot_z (pi / 2)) \<and> trace3 (rot_z (pi / 2)) \<noteq> -1 \<and>
   (\<exists>x y z w. rotation_matrix_to_quaternion (rot_z (pi / 2)) = Inr [Fin x, Fin y, Fin z, Fin w] \<and>
      quat_norm x y z w = 1 \<and> quaternion_matrix x y z w = rot_z (pi / 2))"
proof -
  have p: "proper_rotation (rot_z (pi / 2))" by (rule proper_rotation_rot_z)
  have t: "trace3 (rot_z (pi / 2)) \<noteq> -1" by (simp add: rot_z_def trace3_def)
  from extractor_unit_quaternion p t show ?thesis by blast
qed

section \<open>Array algebra\<close>

lemma shape_nth: "shape m n A \<Longrightarrow> i < m \<Longrightarrow> length (A ! i) = n"
  by (simp add: shape_def list_all_length)

lemma shape_length: "shape m n A \<Longrightarrow> length A = m"
  by (simp add: shape_def)

lemma shapeI: "length A = m \<Longrightarrow> (\<And>i. i < m \<Longrightarrow> length (A ! i) = n) \<Longrightarrow> shape m n A"
  by (simp add: shape_def list_all_length)

lemma ncols_shape: "shape m n A \<Longrightarrow> 0 < m \<Longrightarrow> ncols A = n"
  by (cases A) (simp_all add: shape_def ncols_def)

lemma mat_eqI:
  assumes "shape m n A" and "shape m n B"
    and "\<And>i j. i < m \<Longrightarrow> j < n \<Longrightarrow> A ! i ! j = B ! i ! j"
  shows "A = B"
proof (rule nth_equalityI)
  show "length A = length B" using assms(1,2) by (simp add: shape_def)
next
  fix i assume "i < length A"
  then have i: "i < m" using assms(1) by (simp add: shape_def)
  show "A ! i = B ! i"
  proof (rule nth_equalityI)
    show "length (A ! i) = length (B ! i)"
      using shape_nth[OF assms(1) i] shape_nth[OF assms(2) i] by simp
  next
    fix j assume "j < length (A ! i)"
    then have "j < n" using shape_nth[OF assms(1) i] by simp
    then show "A ! i ! j = B ! i ! j" using assms(3) i by simp
  qed
qed

lemma dot_sum: "length xs = length ys \<Longrightarrow> dot xs ys = (\<Sum>k<length xs. xs ! k * ys ! k)"
proof -
  assume l: "length xs = length ys"
  have "dot xs ys = (\<Sum>k = 0..<length (map2 (*) xs ys). map2 (*) xs ys ! k)"
    unfolding dot_def by (rule sum_list_sum_nth)
  also have "\<dots> = (\<Sum>k<length xs. xs ! k * ys ! k)"
    using l by (simp add: atLeast0LessThan)
  finally show ?thesis .
qed

lemma length_matvec: "length (matvec A v) = length A"
  by (simp add: matvec_def)

lemma matvec_nth:
  "i < length A \<Longrightarrow> length (A ! i) = length v \<Longrightarrow>
   matvec A v ! i = (\<Sum>k<length v. A ! i ! k * v ! k)"
  by (simp add: matvec_def dot_sum)

lemma length_matmul: "length (matmul A B) = length A"
  by (simp add: matmul_def)

lemma shape_matmul: "shape (length A) (ncols B) (matmul A B)"
  by (simp add: shape_def matmul_def list_all_iff)

lemma matmul_nth:
  "i < length A \<Longrightarrow> j < ncols B \<Longrightarrow> length (A ! i) = length B \<Longrightarrow>
   matmul A B ! i ! j = (\<Sum>k<length B. A ! i ! k * B ! k ! j)"
  by (simp add: matmul_def dot_sum col_def)

lemma shape_eye: "shape n n (eye n)"
  by (simp add: shape_def eye_def list_all_iff)

lemma eye_nth: "i < n \<Longrightarrow> j < n \<Longrightarrow> eye n ! i ! j = (if i = j then 1 else 0)"
  by (simp add: eye_def)

lemma shape_zeros: "shape m n (zeros m n)"
  by (simp add: shape_def zeros_def list_all_iff)

lemma zeros_nth: "i < m \<Longrightarrow> j < n \<Longrightarrow> zeros m n ! i ! j = 0"
  by (simp add: zeros_def)

lemma shape_mat_add: "shape m n A \<Longrightarrow> shape m n B \<Longrightarrow> shape m n (mat_add A B)"
  by (rule shapeI) (simp_all add: mat_add_def vec_add_def shape_length shape_nth)

lemma shape_mat_sub: "shape m n A \<Longrightarrow> shape m n B \<Longrightarrow> shape m n (mat_sub A B)"
  by (rule shapeI) (simp_all add: mat_sub_def vec_sub_def shape_length shape_nth)

lemma mat_add_nth:
  "shape m n A \<Longrightarrow> shape m n B \<Longrightarrow> i < m \<Longrightarrow> j < n \<Longrightarrow>
   mat_add A B ! i ! j = A ! i ! j + B ! i ! j"
  by (simp add: mat_add_def vec_add_def shape_length shape_nth)

lemma mat_sub_nth:
  "shape m n A \<Longrightarrow> shape m n B \<Longrightarrow> i < m \<Longrightarrow> j < n \<Longrightarrow>
   mat_sub A B ! i ! j = A ! i ! j - B ! i ! j"
  by (simp add: mat_sub_def vec_sub_def shape_length shape_nth)

lemma shape_reshape_col: "shape (length v) 1 (reshape_col v)"
  by (simp add: shape_def reshape_col_def list_all_iff)

lemma reshape_col_nth: "i < length v \<Longrightarrow> reshape_col v ! i ! 0 = v ! i"
  by (simp add: reshape_col_def)

lemma flatten_reshape_col: "flatten (reshape_col v) = v"
  by (induction v) (simp_all add: flatten_def reshape_col_def)

lemma reshape_col_flatten: "shape m 1 A \<Longrightarrow> reshape_col (flatten A) = A"
proof (induction A arbitrary: m)
  case Nil
  then show ?case by (simp add: flatten_def reshape_col_def)
next
  case (Cons row A)
  from Cons.prems have "length row = 1" and "shape (length A) 1 A"
    by (simp_all add: shape_def)
  from this(1) obtain a where "row = [a]"
    by (cases row) simp_all
  with Cons.IH[OF \<open>shape (length A) 1 A\<close>] show ?case
    by (simp add: flatten_def reshape_col_def)
qed

lemma length_flatten_col: "shape m 1 A \<Longrightarrow> length (flatten A) = m"
  using reshape_col_flatten[of m A] shape_length[of m 1 A]
  by (metis length_map reshape_col_def)

lemma matmul_eye_left:
  assumes B: "shape n k B" and n: "0 < n"
  shows "matmul (eye n) B = B"
proof (rule mat_eqI[where m = n and n = k])
  have nc: "ncols B = k" using B n by (rule ncols_shape)
  show "shape n k (matmul (eye n) B)"
    using shape_matmul[of "eye n" B] by (simp add: nc shape_length[OF shape_eye])
  show "shape n k B" by fact
  fix i j assume i: "i < n" and j: "j < k"
  have lB: "length B = n" using B by (rule shape_length)
  have "matmul (eye n) B ! i ! j = (\<Sum>l<n. eye n ! i ! l * B ! l ! j)"
    using matmul_nth[of i "eye n" j B] i j
    by (simp add: nc lB shape_length[OF shape_eye] shape_nth[OF shape_eye])
  also have "\<dots> = (\<Sum>l<n. if i = l then B ! l ! j else 0)"
    by (rule sum.cong) (simp_all add: eye_nth i)
  also have "\<dots> = B ! i ! j"
    using i by simp
  finally show "matmul (eye n) B ! i ! j = B ! i ! j" .
qed

lemma matmul_zeros_left:
  assumes "length B = k"
  shows "matmul (zeros m k) B = zeros m (ncols B)"
proof (rule mat_eqI[where m = m and n = "ncols B"])
  show "shape m (ncols B) (matmul (zeros m k) B)"
    using shape_matmul[of "zeros m k" B] by (simp add: shape_length[OF shape_zeros])
  show "shape m (ncols B) (zeros m (ncols B))" by (rule shape_zeros)
  fix i j assume i: "i < m" and j: "j < ncols B"
  have "matmul (zeros m k) B ! i ! j = (\<Sum>l<k. zeros m k ! i ! l * B ! l ! j)"
    using matmul_nth[of i "zeros m k" j B] i j assms
    by (simp add: shape_length[OF shape_zeros] shape_nth[OF shape_zeros])
  also have "\<dots> = 0"
    by (rule sum.neutral) (simp add: zeros_nth i)
  finally show "matmul (zeros m k) B ! i ! j = zeros m (ncols B) ! i ! j"
    by (simp add: zeros_nth i j)
qed

lemma matmul_zeros_right:
  assumes A: "shape m k A" and k: "0 < k"
  shows "matmul A (zeros k n) = zeros m n"
proof (rule mat_eqI[where m = m and n = n])
  have nc: "ncols (zeros k n) = n" using shape_zeros k by (rule ncols_shape)
  have lA: "length A = m" using A by (rule shape_length)
  show "shape m n (matmul A (zeros k n))"
    using shape_matmul[of A "zeros k n"] by (simp add: nc lA)
  show "shape m n (zeros m n)" by (rule shape_zeros)
  fix i j assume i: "i < m" and j: "j < n"
  have "matmul A (zeros k n) ! i ! j = (\<Sum>l<k. A ! i ! l * zeros k n ! l ! j)"
    using matmul_nth[of i A j "zeros k n"] i j
    by (simp add: nc lA shape_nth[OF A] shape_length[OF shape_zeros])
  also have "\<dots> = 0"
    by (rule sum.neutral) (simp add: zeros_nth j)
  finally show "matmul A (zeros k n) ! i ! j = zeros m n ! i ! j"
    by (simp add: zeros_nth i j)
qed

lemma mat_sub_zeros: "shape m n A \<Longrightarrow> mat_sub A (zeros m n) = A"
  by (rule mat_eqI[where m = m and n = n])
    (simp_all add: shape_mat_sub shape_zeros mat_sub_nth zeros_nth)

lemma mat_add_zeros_right: "shape m n A \<Longrightarrow> mat_add A (zeros m n) = A"
  by (rule mat_eqI[where m = m and n = n])
    (simp_all add: shape_mat_add shape_zeros mat_add_nth zeros_nth)

lemma mat_sub_self: "shape m n A \<Longrightarrow> mat_sub A A = zeros m n"
  by (rule mat_eqI[where m = m and n = n])
    (simp_all add: shape_mat_sub shape_zeros mat_sub_nth zeros_nth)

lemma matmul_assoc:
  assumes A: "shape m n A" and B: "shape n k B" and C: "shape k l C"
    and n: "0 < n" and k: "0 < k"
  shows "matmul A (matmul B C) = matmul (matmul A B) C"
proof (rule mat_eqI[where m = m and n = l])
  have ncB: "ncols B = k" using B n by (rule ncols_shape)
  have ncC: "ncols C = l" using C k by (rule ncols_shape)
  have lA: "length A = m" and lB: "length B = n" and lC: "length C = k"
    using A B C by (simp_all add: shape_length)
  have BC: "shape n l (matmul B C)"
    using shape_matmul[of B C] by (simp add: lB ncC)
  have AB: "shape m k (matmul A B)"
    using shape_matmul[of A B] by (simp add: lA ncB)
  have ncBC: "ncols (matmul B C) = l" using BC n by (rule ncols_shape)
  show "shape m l (matmul A (matmul B C))"
    using shape_matmul[of A "matmul B C"] by (simp add: lA ncBC)
  show "shape m l (matmul (matmul A B) C)"
    using shape_matmul[of "matmul A B" C] by (simp add: length_matmul lA ncC)
  fix i j assume i: "i < m" and j: "j < l"
  have "matmul A (matmul B C) ! i ! j = (\<Sum>p<n. A ! i ! p * matmul B C ! p ! j)"
    using matmul_nth[of i A j "matmul B C"] i j
    by (simp add: lA ncBC shape_nth[OF A] length_matmul lB)
  also have "\<dots> = (\<Sum>p<n. A ! i ! p * (\<Sum>r<k. B ! p ! r * C ! r ! j))"
  proof (rule sum.cong)
    fix p assume "p \<in> {..<n}"
    then have p: "p < n" by simp
    show "A ! i ! p * matmul B C ! p ! j = A ! i ! p * (\<Sum>r<k. B ! p ! r * C ! r ! j)"
      using matmul_nth[of p B j C] p j by (simp add: lB ncC shape_nth[OF B] lC)
  qed simp
  also have "\<dots> = (\<Sum>p<n. \<Sum>r<k. A ! i ! p * B ! p ! r * C ! r ! j)"
    by (simp add: sum_distrib_left mult.assoc)
  also have "\<dots> = (\<Sum>r<k. \<Sum>p<n. A ! i ! p * B ! p ! r * C ! r ! j)"
    by (rule sum.swap)
  also have "\<dots> = (\<Sum>r<k. (\<Sum>p<n. A ! i ! p * B ! p ! r) * C ! r ! j)"
    by (simp add: sum_distrib_right)
  also have "\<dots> = (\<Sum>r<k. matmul A B ! i ! r * C ! r ! j)"
  proof (rule sum.cong)
    fix r assume "r \<in> {..<k}"
    then have r: "r < k" by simp
    show "(\<Sum>p<n. A ! i ! p * B ! p ! r) * C ! r ! j = matmul A B ! i ! r * C ! r ! j"
      using matmul_nth[of i A r B] i r by (simp add: lA ncB shape_nth[OF A] lB)
  qed simp
  also have "\<dots> = matmul (matmul A B) C ! i ! j"
    using matmul_nth[of i "matmul A B" j C] i j
    by (simp add: length_matmul lA ncC shape_nth[OF AB] lC)
  finally show "matmul A (matmul B C) ! i ! j = matmul (matmul A B) C ! i ! j" .
qed

lemma matmul_sub_eye:
  assumes A: "shape m n A" and Y: "shape n n Y" and n: "0 < n"
  shows "matmul A (mat_sub (eye n) Y) = mat_sub A (matmul A Y)"
proof (rule mat_eqI[where m = m and n = n])
  have lA: "length A = m" using A by (rule shape_length)
  have lY: "length Y = n" using Y by (rule shape_length)
  have ncY: "ncols Y = n" using Y n by (rule ncols_shape)
  have S: "shape n n (mat_sub (eye n) Y)" using shape_eye Y by (rule shape_mat_sub)
  have ncS: "ncols (mat_sub (eye n) Y) = n" using S n by (rule ncols_shape)
  have AY: "shape m n (matmul A Y)" using shape_matmul[of A Y] by (simp add: lA ncY)
  show "shape m n (matmul A (mat_sub (eye n) Y))"
    using shape_matmul[of A "mat_sub (eye n) Y"] by (simp add: lA ncS)
  show "shape m n (mat_sub A (matmul A Y))" using A AY by (rule shape_mat_sub)
  fix i j assume i: "i < m" and j: "j < n"
  have "matmul A (mat_sub (eye n) Y) ! i ! j
      = (\<Sum>l<n. A ! i ! l * mat_sub (eye n) Y ! l ! j)"
    using matmul_nth[of i A j "mat_sub (eye n) Y"] i j
    by (simp add: lA ncS shape_nth[OF A] shape_length[OF S])
  also have "\<dots> = (\<Sum>l<n. (if l = j then A ! i ! l else 0) - A ! i ! l * Y ! l ! j)"
    by (rule sum.cong) (simp_all add: mat_sub_nth[OF shape_eye Y] eye_nth j algebra_simps)
  also have "\<dots> = (\<Sum>l<n. if l = j then A ! i ! l else 0) - (\<Sum>l<n. A ! i ! l * Y ! l ! j)"
    by (rule sum_subtractf)
  also have "(\<Sum>l<n. if l = j then A ! i ! l else 0) = A ! i ! j"
    using j by simp
  also have "(\<Sum>l<n. A ! i ! l * Y ! l ! j) = matmul A Y ! i ! j"
    using matmul_nth[of i A j Y] i j by (simp add: lA ncY shape_nth[OF A] lY)
  finally show "matmul A (mat_sub (eye n) Y) ! i ! j = mat_sub A (matmul A Y) ! i ! j"
    by (simp add: mat_sub_nth[OF A AY] i j)
qed

section \<open>The resolver\<close>

lemma RAD_120_eq: "RAD_120 = 2 * pi / 3"
  by (simp add: RAD_120_def deg2rad_def)

lemma RAD_120_pos: "0 < RAD_120"
  by (simp add: RAD_120_eq)

lemma projector_shape:
  assumes "well_shaped rb pinv q dx k0"
  shows "shape N_JOINTS N_JOINTS (matmul (pinv (jacobian rb q)) (jacobian rb q))"
    and "shape N_JOINTS N_JOINTS
           (mat_sub (eye N_JOINTS) (matmul (pinv (jacobian rb q)) (jacobian rb q)))"
proof -
  from assms have J: "shape 3 N_JOINTS (jacobian rb q)"
    and JT: "shape N_JOINTS 3 (pinv (jacobian rb q))"
    by (simp_all add: well_shaped_def)
  have "ncols (jacobian rb q) = N_JOINTS" using J by (rule ncols_shape) simp
  then show 1: "shape N_JOINTS N_JOINTS (matmul (pinv (jacobian rb q)) (jacobian rb q))"
    using shape_matmul[of "pinv (jacobian rb q)" "jacobian rb q"]
    by (simp add: shape_length[OF JT])
  show "shape N_JOINTS N_JOINTS
          (mat_sub (eye N_JOINTS) (matmul (pinv (jacobian rb q)) (jacobian rb q)))"
    using shape_eye 1 by (rule shape_mat_sub)
qed

lemma task_velocity_shape:
  assumes "well_shaped rb pinv q dx k0"
  shows "shape N_JOINTS 1 (task_velocity rb pinv q dx)"
proof -
  from assms have JT: "shape N_JOINTS 3 (pinv (jacobian rb q))"
    by (simp add: well_shaped_def)
  show ?thesis
    using shape_reshape_col[of "matvec (pinv (jacobian rb q)) dx"]
    by (simp add: task_velocity_def Let_def length_matvec shape_length[OF JT])
qed

lemma null_space_velocity_shape:
  assumes "well_shaped rb pinv q dx k0"
  shows "shape N_JOINTS 1 (null_space_velocity rb pinv q k0)"
proof -
  from assms have Q: "shape N_JOINTS 1 (q0dot rb q k0)"
    by (simp add: well_shaped_def)
  have "ncols (q0dot rb q k0) = 1" using Q by (rule ncols_shape) (simp add: N_JOINTS_def)
  then show ?thesis
    using shape_matmul[of "mat_sub (eye N_JOINTS) (matmul (pinv (jacobian rb q)) (jacobian rb q))"
        "q0dot rb q k0"]
    by (simp add: null_space_velocity_def Let_def shape_length[OF projector_shape(2)[OF assms]])
qed

lemma joint_velocity_length:
  assumes "well_shaped rb pinv q dx k0"
  shows "length (flatten (mat_add (task_velocity rb pinv q dx) (null_space_velocity rb pinv q k0)))
         = N_JOINTS"
  by (rule length_flatten_col)
    (rule shape_mat_add[OF task_velocity_shape[OF assms] null_space_velocity_shape[OF assms]])

lemma candidate_length:
  assumes "well_shaped rb pinv q dx k0"
  shows "length (candidate rb pinv q dx k0 dt) = N_JOINTS"
proof -
  from assms have "length q = N_JOINTS" by (simp add: well_shaped_def)
  then show ?thesis
    by (simp add: candidate_def Let_def vec_add_def joint_velocity_length[OF assms])
qed

lemma candidate_nth:
  assumes "well_shaped rb pinv q dx k0" and "i < N_JOINTS"
  shows "candidate rb pinv q dx k0 dt ! i =
         q ! i + flatten (mat_add (task_velocity rb pinv q dx) (null_space_velocity rb pinv q k0)) ! i * dt"
proof -
  from assms have "length q = N_JOINTS" by (simp add: well_shaped_def)
  then show ?thesis
    using assms(2)
    by (simp add: candidate_def Let_def vec_add_def joint_velocity_length[OF assms(1)])
qed

lemma clip_nth: "i < length a \<Longrightarrow> clip a lo hi ! i = min hi (max lo (a ! i))"
  by (simp add: clip_def)

lemma clip_within: "lo \<le> hi \<Longrightarrow> i < length a \<Longrightarrow> lo \<le> clip a lo hi ! i \<and> clip a lo hi ! i \<le> hi"
  by (simp add: clip_def)

text \<open>
  On finite values the result is the candidate \<open>q + dq * dt\<close> with each entry clamped on
  its own to \<open>[-2\<pi>/3, 2\<pi>/3]\<close>.
\<close>

lemma resolver_output_clamped_finite:
  assumes "well_shaped rb pinv q dx k0"
  shows "\<exists>out. update_joint_position rb pinv q dx k0 dt = Inr out \<and>
           length out = N_JOINTS \<and> length (candidate rb pinv q dx k0 dt) = N_JOINTS \<and>
           (\<forall>i<N_JOINTS.
              candidate rb pinv q dx k0 dt ! i =
                q ! i + flatten (mat_add (task_velocity rb pinv q dx)
                                   (null_space_velocity rb pinv q k0)) ! i * dt \<and>
              out ! i = min (2 * pi / 3) (max (- (2 * pi / 3)) (candidate rb pinv q dx k0 dt ! i)) \<and>
              - (2 * pi / 3) \<le> out ! i \<and> out ! i \<le> 2 * pi / 3)"
proof -
  let ?c = "candidate rb pinv q dx k0 dt"
  let ?out = "clip ?c (- RAD_120) RAD_120"
  have len: "length ?c = N_JOINTS" by (rule candidate_length[OF assms])
  have "update_joint_position rb pinv q dx k0 dt = Inr ?out"
    using assms by (simp add: update_joint_position_def)
  moreover have "length ?out = N_JOINTS" using len by (simp add: clip_def)
  moreover have "\<forall>i<N_JOINTS.
      ?c ! i = q ! i + flatten (mat_add (task_velocity rb pinv q dx)
                                   (null_space_velocity rb pinv q k0)) ! i * dt \<and>
      ?out ! i = min (2 * pi / 3) (max (- (2 * pi / 3)) (?c ! i)) \<and>
      - (2 * pi / 3) \<le> ?out ! i \<and> ?out ! i \<le> 2 * pi / 3"
  proof (intro allI impI conjI)
    fix i assume i: "i < N_JOINTS"
    show "?c ! i = q ! i + flatten (mat_add (task_velocity rb pinv q dx)
                                   (null_space_velocity rb pinv q k0)) ! i * dt"
      by (rule candidate_nth[OF assms i])
    have il: "i < length ?c" using i len by simp
    show "?out ! i = min (2 * pi / 3) (max (- (2 * pi / 3)) (?c ! i))"
      using clip_nth[OF il] by (simp add: RAD_120_eq)
    have "- RAD_120 \<le> RAD_120" using RAD_120_pos by simp
    from clip_within[OF this il]
    show "- (2 * pi / 3) \<le> ?out ! i" and "?out ! i \<le> 2 * pi / 3"
      by (simp_all add: RAD_120_eq)
  qed
  ultimately show ?thesis using len by blast
qed

lemma upt_7: "[0..<7] = [0, 1, 2, 3, 4, 5, 6]"
  by (simp add: upt_rec)

lemma dot_zero_right: "dot xs (replicate k 0) = 0"
proof (induction xs arbitrary: k)
  case Nil
  then show ?case by (simp add: dot_def)
next
  case (Cons x xs)
  from Cons.IH show ?case by (cases k) (simp_all add: dot_def)
qed

lemma matvec_zero: "matvec A (replicate k 0) = replicate (length A) 0"
  by (rule nth_equalityI) (simp_all add: matvec_def dot_zero_right)

lemma vec_add_zero: "length q = n \<Longrightarrow> vec_add q (replicate n 0) = q"
  by (rule nth_equalityI) (simp_all add: vec_add_def)

lemma null_space_velocity_zero:
  assumes ws: "well_shaped rb pinv q dx k0" and z: "q0dot rb q k0 = zeros N_JOINTS 1"
  shows "null_space_velocity rb pinv q k0 = zeros N_JOINTS 1"
proof -
  have "0 < N_JOINTS" by (simp add: N_JOINTS_def)
  from matmul_zeros_right[OF projector_shape(2)[OF ws] this, of 1]
  show ?thesis by (simp add: null_space_velocity_def Let_def z)
qed

lemma candidate_without_null_space:
  assumes ws: "well_shaped rb pinv q dx k0" and z: "q0dot rb q k0 = zeros N_JOINTS 1"
  shows "candidate rb pinv q dx k0 dt =
         vec_add q (map (\<lambda>v. v * dt) (matvec (pinv (jacobian rb q)) dx))"
proof -
  have "mat_add (task_velocity rb pinv q dx) (null_space_velocity rb pinv q k0)
        = task_velocity rb pinv q dx"
    unfolding null_space_velocity_zero[OF ws z]
    by (rule mat_add_zeros_right[OF task_velocity_shape[OF ws]])
  then show ?thesis
    by (simp add: candidate_def Let_def) (simp add: task_velocity_def flatten_reshape_col)
qed

text \<open>
  Claim C1.  With \<open>k0 = 0\<close> and a kinematic model whose \<open>q0dot\<close> is then the zero
  vector, the null-space term is zero and the resolver returns \<open>q + J\<^sup>+ dx dt\<close>, clamped
  entry by entry to \<open>[-2\<pi>/3, 2\<pi>/3]\<close>, for every \<open>q\<close> (within range or not), \<open>dx\<close> and
  \<open>dt\<close>.
\<close>

theorem resolver_task_tracker:
  assumes "well_shaped rb pinv q dx 0" and "q0dot rb q 0 = zeros N_JOINTS 1"
  shows "null_space_velocity rb pinv q 0 = zeros N_JOINTS 1 \<and>
         update_joint_position rb pinv q dx 0 dt =
           Inr (clip (vec_add q (map (\<lambda>v. v * dt) (matvec (pinv (jacobian rb q)) dx)))
                  (- (2 * pi / 3)) (2 * pi / 3))"
  using assms
  by (simp add: null_space_velocity_zero update_joint_position_def
      candidate_without_null_space RAD_120_eq)

lemma example_well_shaped:
  "length q = 7 \<Longrightarrow> length dx = 3 \<Longrightarrow> well_shaped example_robot example_pinv q dx k0"
  by (simp add: well_shaped_def example_robot_def example_jacobian_def example_pinv_def
      N_JOINTS_def shape_def mat_transpose_def ncols_def col_def upt_7 list_all_iff)

lemma example_q0dot_zero: "length q = 7 \<Longrightarrow> q0dot example_robot q 0 = zeros N_JOINTS 1"
  by (rule mat_eqI[where m = 7 and n = 1])
    (simp_all add: example_robot_def zeros_def N_JOINTS_def shape_def list_all_iff)

theorem resolver_task_tracker_witness:
  "well_shaped example_robot example_pinv [1, 0, 0, 0, 0, 0, 2] [10, 0, -5] 0 \<and>
   q0dot example_robot [1, 0, 0, 0, 0, 0, 2] 0 = zeros N_JOINTS 1 \<and>
   null_space_velocity example_robot example_pinv [1, 0, 0, 0, 0, 0, 2] 0 = zeros N_JOINTS 1 \<and>
   update_joint_position example_robot example_pinv [1, 0, 0, 0, 0, 0, 2] [10, 0, -5] 0 (1 / 10) =
     Inr (clip (vec_add [1, 0, 0, 0, 0, 0, 2]
                  (map (\<lambda>v. v * (1 / 10))
                     (matvec (example_pinv (jacobian example_robot [1, 0, 0, 0, 0, 0, 2])) [10, 0, -5])))
            (- (2 * pi / 3)) (2 * pi / 3))"
proof -
  have w: "well_shaped example_robot example_pinv [1, 0, 0, 0, 0, 0, 2] [10, 0, -5] 0"
    by (rule example_well_shaped) simp_all
  have z: "q0dot example_robot [1, 0, 0, 0, 0, 0, 2] 0 = zeros N_JOINTS 1"
    by (rule example_q0dot_zero) simp
  from resolver_task_tracker[OF w z, of "1 / 10"] w z show ?thesis by blast
qed

lemma clip_id:
  assumes "list_all (\<lambda>v. lo \<le> v \<and> v \<le> hi) a"
  shows "clip a lo hi = a"
  using assms by (induction a) (simp_all add: clip_def)

lemma zero_command_candidate:
  assumes ws: "well_shaped rb pinv q [0, 0, 0] k0" and z: "q0dot rb q k0 = zeros N_JOINTS 1"
  shows "candidate rb pinv q [0, 0, 0] k0 dt = q"
proof -
  from ws have lq: "length q = N_JOINTS" and JT: "shape N_JOINTS 3 (pinv (jacobian rb q))"
    by (simp_all add: well_shaped_def)
  have "[0, 0, 0] = replicate 3 (0::real)" by (simp add: numeral_3_eq_3)
  then have "matvec (pinv (jacobian rb q)) [0, 0, 0] = replicate N_JOINTS 0"
    by (simp only: matvec_zero shape_length[OF JT])
  then have "map (\<lambda>v. v * dt) (matvec (pinv (jacobian rb q)) [0, 0, 0]) = replicate N_JOINTS 0"
    by simp
  then show ?thesis
    by (simp only: candidate_without_null_space[OF ws z] vec_add_zero[OF lq])
qed

lemma zero_command_clip:
  assumes ws: "well_shaped rb pinv q [0, 0, 0] k0" and z: "q0dot rb q k0 = zeros N_JOINTS 1"
  shows "update_joint_position rb pinv q [0, 0, 0] k0 dt = Inr (clip q (- (2 * pi / 3)) (2 * pi / 3))"
  using ws by (simp add: update_joint_position_def zero_command_candidate[OF ws z] RAD_120_eq)

text \<open>
  Claim C6, as amended.  With a zero velocity command, \<open>k0 = 0\<close> and a zero \<open>q0dot\<close> the
  resolver returns \<open>q\<close> clamped entry by entry to \<open>[-2\<pi>/3, 2\<pi>/3]\<close>; it returns \<open>q\<close>
  unchanged when every entry of \<open>q\<close> lies within that range.
\<close>

theorem zero_command_returns_clamped_q:
  assumes "well_shaped rb pinv q [0, 0, 0] 0" and "q0dot rb q 0 = zeros N_JOINTS 1"
  shows "update_joint_position rb pinv q [0, 0, 0] 0 dt =
           Inr (clip q (- (2 * pi / 3)) (2 * pi / 3)) \<and>
         (list_all (\<lambda>v. - (2 * pi / 3) \<le> v \<and> v \<le> 2 * pi / 3) q \<longrightarrow>
            update_joint_position rb pinv q [0, 0, 0] 0 dt = Inr q)"
  using zero_command_clip[OF assms] by (simp add: clip_id)

theorem zero_command_returns_clamped_q_witness:
  "well_shaped example_robot example_pinv [1, -1, 0, 0, 0, 0, 1 / 2] [0, 0, 0] 0 \<and>
   q0dot example_robot [1, -1, 0, 0, 0, 0, 1 / 2] 0 = zeros N_JOINTS 1 \<and>
   list_all (\<lambda>v. - (2 * pi / 3) \<le> v \<and> v \<le> 2 * pi / 3) [1, -1, 0, 0, 0, 0, 1 / 2] \<and>
   update_joint_position example_robot example_pinv [1, -1, 0, 0, 0, 0, 1 / 2] [0, 0, 0] 0 (32 / 1000) =
     Inr [1, -1, 0, 0, 0, 0, 1 / 2]"
proof -
  have w: "well_shaped example_robot example_pinv [1, -1, 0, 0, 0, 0, 1 / 2] [0, 0, 0] 0"
    by (rule example_well_shaped) simp_all
  have z: "q0dot example_robot [1, -1, 0, 0, 0, 0, 1 / 2] 0 = zeros N_JOINTS 1"
    by (rule example_q0dot_zero) simp
  have "2 \<le> pi" by (rule pi_ge_two)
  then have r: "list_all (\<lambda>v. - (2 * pi / 3) \<le> v \<and> v \<le> 2 * pi / 3) [1, -1, 0, 0, 0, 0, 1 / 2]"
    by simp
  from zero_command_returns_clamped_q[OF w z, of "32 / 1000"] w z r show ?thesis by blast
qed

text \<open>
  The claim as stated fails for a \<open>q\<close> outside the actuation range: a reading of 3 radians
  on the first joint comes back as \<open>2\<pi>/3\<close>.
\<close>

theorem zero_command_counterexample:
  "well_shaped example_robot example_pinv [3, 0, 0, 0, 0, 0, 0] [0, 0, 0] 0 \<and>
   q0dot example_robot [3, 0, 0, 0, 0, 0, 0] 0 = zeros N_JOINTS 1 \<and>
   update_joint_position example_robot example_pinv [3, 0, 0, 0, 0, 0, 0] [0, 0, 0] 0 (32 / 1000) =
     Inr [2 * pi / 3, 0, 0, 0, 0, 0, 0] \<and>
   update_joint_position example_robot example_pinv [3, 0, 0, 0, 0, 0, 0] [0, 0, 0] 0 (32 / 1000) \<noteq>
     Inr [3, 0, 0, 0, 0, 0, 0]"
proof -
  have w: "well_shaped example_robot example_pinv [3, 0, 0, 0, 0, 0, 0] [0, 0, 0] 0"
    by (rule example_well_shaped) simp_all
  have z: "q0dot example_robot [3, 0, 0, 0, 0, 0, 0] 0 = zeros N_JOINTS 1"
    by (rule example_q0dot_zero) simp
  have "pi < 4" by (rule pi_less_4)
  then have lt: "2 * pi / 3 < 3" by simp
  have p: "0 < pi" by (rule pi_gt_zero)
  have m1: "max (- (2 * pi / 3)) 3 = (3::real)" by (rule max_absorb2) (use p in linarith)
  have m2: "min (2 * pi / 3) 3 = 2 * pi / 3" by (rule min_absorb1) (use lt in linarith)
  have m3: "max (- (2 * pi / 3)) 0 = (0::real)" by (rule max_absorb2) (use p in linarith)
  have m4: "min (2 * pi / 3) 0 = (0::real)" by (rule min_absorb2) (use p in linarith)
  have c: "clip [3, 0, 0, 0, 0, 0, 0] (- (2 * pi / 3)) (2 * pi / 3) = [2 * pi / 3, 0, 0, 0, 0, 0, 0]"
    by (simp only: clip_def list.map m1 m2 m3 m4)
  from zero_command_clip[OF w z, of "32 / 1000"] c lt w z show ?thesis by simp
qed

section \<open>The driver: initialization request\<close>

lemma set_positions_fits:
  "i + length vs \<le> length ms \<Longrightarrow>
   set_positions i vs ms = Inr (take i ms @ vs @ drop (i + length vs) ms)"
proof (induction vs arbitrary: i ms)
  case Nil
  then show ?case by simp
next
  case (Cons v vs)
  from Cons.prems have i: "i < length ms" and fit: "Suc i + length vs \<le> length (ms[i := v])"
    by simp_all
  have "take (Suc i) (ms[i := v]) = take i ms @ [v]"
    using i by (simp add: take_Suc_conv_app_nth)
  moreover have "drop (Suc i + length vs) (ms[i := v]) = drop (i + length (v # vs)) ms"
    by simp
  ultimately show ?case
    using Cons.IH[OF fit] i by simp
qed

lemma set_positions_all:
  "length vs = length ms \<Longrightarrow> set_positions 0 vs ms = Inr vs"
  using set_positions_fits[of 0 vs ms] by simp

lemma robot_steps_count: "robot_steps n st = st\<lparr>sim_steps := sim_steps st + n\<rparr>"
  by (induction n arbitrary: st) (simp_all add: robot_step_def)

lemma delay_simulation_steps:
  assumes "0 < basic_time_step st" and "0 \<le> seconds"
  shows "delay_simulation st seconds =
         Inr (st\<lparr>sim_steps := sim_steps st + nat \<lfloor>1000 * seconds / basic_time_step st\<rfloor>\<rparr>)"
  using assms by (simp add: delay_simulation_def py_int_def robot_steps_count Let_def)

lemma settle_time:
  fixes b :: real
  assumes "0 < b"
  shows "1000 - b < real (nat \<lfloor>1000 / b\<rfloor>) * b" and "real (nat \<lfloor>1000 / b\<rfloor>) * b \<le> 1000"
proof -
  have nn: "0 \<le> \<lfloor>1000 / b\<rfloor>" using assms by simp
  then have r: "real (nat \<lfloor>1000 / b\<rfloor>) = of_int \<lfloor>1000 / b\<rfloor>" by simp
  have "of_int \<lfloor>1000 / b\<rfloor> \<le> 1000 / b" by (rule of_int_floor_le)
  then have "of_int \<lfloor>1000 / b\<rfloor> * b \<le> 1000 / b * b"
    using assms by (intro mult_right_mono) simp_all
  then show "real (nat \<lfloor>1000 / b\<rfloor>) * b \<le> 1000"
    using assms by (simp add: r)
  have "1000 / b < of_int \<lfloor>1000 / b\<rfloor> + 1" by linarith
  then have "1000 / b * b < (of_int \<lfloor>1000 / b\<rfloor> + 1) * b"
    using assms by (intro mult_strict_right_mono) simp_all
  then have "1000 < of_int \<lfloor>1000 / b\<rfloor> * b + b"
    using assms by (simp add: algebra_simps)
  then show "1000 - b < real (nat \<lfloor>1000 / b\<rfloor>) * b"
    by (simp add: r)
qed

text \<open>
  Claim C9.  A request that carries \<open>N_JOINTS\<close> joint angles is served without an error:
  each motor is commanded to the requested angle as it is (no resolver, no clamping), the
  simulation is stepped \<open>int(1000 / basicTimeStep)\<close> times, which is more than
  \<open>1000 - basicTimeStep\<close> and at most 1000 simulated milliseconds, and the response's
  \<open>success\<close> is true.  The simulator's basic time step is positive.
\<close>

theorem init_joint_state_succeeds:
  assumes "length joint_state = N_JOINTS" and "length (motors st) = N_JOINTS"
    and "0 < basic_time_step st"
  shows "\<exists>st'. init_joint_state_callback st joint_state = Inr (st', \<lparr>success = True\<rparr>) \<and>
           motors st' = joint_state \<and>
           st' = st\<lparr>motors := joint_state,
                    sim_steps := sim_steps st + nat \<lfloor>1000 / basic_time_step st\<rfloor>\<rparr> \<and>
           1000 - basic_time_step st
             < real (sim_steps st' - sim_steps st) * basic_time_step st \<and>
           real (sim_steps st' - sim_steps st) * basic_time_step st \<le> 1000"
proof -
  let ?st' = "st\<lparr>motors := joint_state,
                  sim_steps := sim_steps st + nat \<lfloor>1000 / basic_time_step st\<rfloor>\<rparr>"
  have sp: "set_positions 0 joint_state (motors st) = Inr joint_state"
    by (rule set_positions_all) (simp add: assms)
  have b: "0 < basic_time_step (st\<lparr>motors := joint_state\<rparr>)" using assms(3) by simp
  have "init_joint_state_callback st joint_state = Inr (?st', \<lparr>success = True\<rparr>)"
    by (simp add: init_joint_state_callback_def sp delay_simulation_steps[OF b])
  moreover have "motors ?st' = joint_state" by simp
  moreover have "sim_steps ?st' - sim_steps st = nat \<lfloor>1000 / basic_time_step st\<rfloor>" by simp
  ultimately show ?thesis
    using settle_time[OF assms(3)] by (metis (no_types, lifting))
qed

theorem init_joint_state_succeeds_witness:
  "length [3, -3, 1 / 2, 0, 0, 0, 1 :: real] = N_JOINTS \<and>
   length (motors example_driver) = N_JOINTS \<and>
   0 < basic_time_step example_driver \<and>
   (\<exists>st'. init_joint_state_callback example_driver [3, -3, 1 / 2, 0, 0, 0, 1] =
            Inr (st', \<lparr>success = True\<rparr>) \<and>
      motors st' = [3, -3, 1 / 2, 0, 0, 0, 1] \<and>
      st' = example_driver\<lparr>motors := [3, -3, 1 / 2, 0, 0, 0, 1],
               sim_steps := sim_steps example_driver + nat \<lfloor>1000 / basic_time_step example_driver\<rfloor>\<rparr> \<and>
      1000 - basic_time_step example_driver
        < real (sim_steps st' - sim_steps example_driver) * basic_time_step example_driver \<and>
      real (sim_steps st' - sim_steps example_driver) * basic_time_step example_driver \<le> 1000)"
proof -
  have a: "length [3, -3, 1 / 2, 0, 0, 0, 1 :: real] = N_JOINTS"
    by (simp add: N_JOINTS_def)
  have b: "length (motors example_driver) = N_JOINTS"
    by (simp add: example_driver_def N_JOINTS_def)
  have c: "0 < basic_time_step example_driver"
    by (simp add: example_driver_def)
  from init_joint_state_succeeds[OF a b c] a b c show ?thesis by blast
qed

section \<open>The driver: one control cycle\<close>

lemma robot_steps_target_twist:
  "robot_steps n (st\<lparr>target_twist := t\<rparr>) = (robot_steps n st)\<lparr>target_twist := t\<rparr>"
  by (simp add: robot_steps_count)

lemma delay_simulation_target_twist:
  "delay_simulation (st\<lparr>target_twist := t\<rparr>) seconds =
   map_sum id (\<lambda>s. s\<lparr>target_twist := t\<rparr>) (delay_simulation st seconds)"
  by (simp add: delay_simulation_def Let_def robot_steps_count)

lemma init_joint_state_callback_target_twist:
  "init_joint_state_callback (st\<lparr>target_twist := t\<rparr>) js =
   map_sum id (\<lambda>(s, resp). (s\<lparr>target_twist := t\<rparr>, resp)) (init_joint_state_callback st js)"
proof (cases "set_positions 0 js (motors st)")
  case (Inl e)
  then show ?thesis by (simp add: init_joint_state_callback_def)
next
  case (Inr ms)
  have sw: "st\<lparr>target_twist := t, motors := ms\<rparr> = st\<lparr>motors := ms, target_twist := t\<rparr>"
    by simp
  show ?thesis
    by (cases "delay_simulation (st\<lparr>motors := ms\<rparr>) 1")
      (simp_all add: init_joint_state_callback_def Inr sw delay_simulation_target_twist)
qed

lemma spin_once_same:
  assumes s: "same_but_angular s1 s2" and e: "same_linear_event e1 e2"
  shows "(\<exists>err. spin_once s1 e1 = Inl err \<and> spin_once s2 e2 = Inl err) \<or>
         (\<exists>t1 t2. spin_once s1 e1 = Inr t1 \<and> spin_once s2 e2 = Inr t2 \<and> same_but_angular t1 t2)"
proof -
  from s have lin: "linear_v (target_twist s1) = linear_v (target_twist s2)"
    and s2: "s2 = s1\<lparr>target_twist := target_twist s2\<rparr>"
    by (simp_all add: same_but_angular_def same_linear_def)
  show ?thesis
  proof (cases e1)
    case None
    with e have "e2 = None" by simp
    with None s show ?thesis by (simp add: spin_once_def)
  next
    case (Some ev1)
    show ?thesis
    proof (cases ev1)
      case (TwistMsg m1)
      show ?thesis
      proof (cases e2)
        case None
        with e Some TwistMsg show ?thesis by simp
      next
        case (Some ev2)
        show ?thesis
        proof (cases ev2)
          case (TwistMsg m2)
          from e \<open>e1 = Some ev1\<close> \<open>ev1 = TwistMsg m1\<close> Some TwistMsg
          have m: "linear_v m1 = linear_v m2" by (simp add: same_linear_def)
          have "s2\<lparr>target_twist := m2\<rparr> = s1\<lparr>target_twist := m2\<rparr>"
            by (subst s2) simp
          then have "same_but_angular (twist_callback s1 m1) (twist_callback s2 m2)"
            using m by (simp add: same_but_angular_def same_linear_def twist_callback_def)
          then show ?thesis
            using \<open>e1 = Some ev1\<close> \<open>ev1 = TwistMsg m1\<close> Some TwistMsg
            by (simp add: spin_once_def)
        next
          case (GainMsg g)
          with e \<open>e1 = Some ev1\<close> \<open>ev1 = TwistMsg m1\<close> Some show ?thesis by simp
        next
          case (InitJointState js)
          with e \<open>e1 = Some ev1\<close> \<open>ev1 = TwistMsg m1\<close> Some show ?thesis by simp
        qed
      qed
    next
      case (GainMsg g)
      with e Some have e2: "e2 = Some (GainMsg g)" by simp
      have "s2\<lparr>gain := g\<rparr> = s1\<lparr>gain := g, target_twist := target_twist s2\<rparr>"
        by (subst s2) simp
      then have "same_but_angular (gain_callback s1 g) (gain_callback s2 g)"
        using lin by (simp add: same_but_angular_def same_linear_def gain_callback_def)
      then show ?thesis
        using Some GainMsg e2 by (simp add: spin_once_def)
    next
      case (InitJointState js)
      with e Some have e2: "e2 = Some (InitJointState js)" by simp
      have c2: "init_joint_state_callback s2 js =
          map_sum id (\<lambda>(s, resp). (s\<lparr>target_twist := target_twist s2\<rparr>, resp))
            (init_joint_state_callback s1 js)"
        by (subst s2) (rule init_joint_state_callback_target_twist)
      show ?thesis
      proof (cases "init_joint_state_callback s1 js")
        case (Inl err)
        then show ?thesis
          using Some InitJointState e2 c2 by (simp add: spin_once_def)
      next
        case (Inr p)
        obtain t resp where p: "p = (t, resp)" by (cases p)
        have tw: "target_twist t = target_twist s1"
          using Inr p
          by (auto simp: init_joint_state_callback_def delay_simulation_def Let_def
              robot_steps_count split: sum.splits if_splits)
        have "same_but_angular (t\<lparr>replies := replies t @ [resp]\<rparr>)
                (t\<lparr>target_twist := target_twist s2, replies := replies t @ [resp]\<rparr>)"
          using lin tw by (simp add: same_but_angular_def same_linear_def)
        then show ?thesis
          using Some InitJointState e2 c2 Inr p by (simp add: spin_once_def)
      qed
    qed
  qed
qed

lemma step_after_spin:
  assumes "same_but_angular t1 t2"
  shows "(case update_joint_position rb pinv rd
                 [vec_x (linear_v (target_twist t1)), vec_y (linear_v (target_twist t1)),
                  vec_z (linear_v (target_twist t1))] (gain t1) dt of
            Inl e \<Rightarrow> Inl e
          | Inr tgt \<Rightarrow>
              (case set_positions 0 tgt (motors t1) of
                 Inl e \<Rightarrow> Inl e
               | Inr ms \<Rightarrow>
                   (case get_end_effector_pose end_eff of
                      Inl e \<Rightarrow> Inl e
                    | Inr p \<Rightarrow> Inr (t1\<lparr>motors := ms, published := published t1 @ [p]\<rparr>))))
         = map_sum id (\<lambda>s. s\<lparr>target_twist := target_twist t1\<rparr>)
            (case update_joint_position rb pinv rd
                 [vec_x (linear_v (target_twist t2)), vec_y (linear_v (target_twist t2)),
                  vec_z (linear_v (target_twist t2))] (gain t2) dt of
            Inl e \<Rightarrow> Inl e
          | Inr tgt \<Rightarrow>
              (case set_positions 0 tgt (motors t2) of
                 Inl e \<Rightarrow> Inl e
               | Inr ms \<Rightarrow>
                   (case get_end_effector_pose end_eff of
                      Inl e \<Rightarrow> Inl e
                    | Inr p \<Rightarrow> Inr (t2\<lparr>motors := ms, published := published t2 @ [p]\<rparr>))))"
proof -
  from assms have lin: "linear_v (target_twist t1) = linear_v (target_twist t2)"
    and t2: "t2 = t1\<lparr>target_twist := target_twist t2\<rparr>"
    by (simp_all add: same_but_angular_def same_linear_def)
  have g: "gain t2 = gain t1" and m: "motors t2 = motors t1" and p: "published t2 = published t1"
    by (subst t2, simp)+
  have rst: "\<And>ms ps. t2\<lparr>motors := ms, published := ps, target_twist := target_twist t1\<rparr>
                 = t1\<lparr>motors := ms, published := ps\<rparr>"
    by (subst t2) simp
  show ?thesis
    by (simp add: lin g m p rst split: sum.splits)
qed

text \<open>
  Claim C8.  Two control cycles that differ at most in the angular components of the twist
  command, whether it was stored by an earlier cycle or is received in this one, with the
  same joint readings, linear components and gain, either both raise the same error or
  both succeed with the same positions commanded to the motors.
\<close>

theorem step_ignores_angular:
  assumes "same_but_angular s1 s2" and "same_linear_event e1 e2"
  shows "(\<exists>err. step rb pinv s1 e1 sensors end_eff = Inl err \<and>
                step rb pinv s2 e2 sensors end_eff = Inl err) \<or>
         (\<exists>t1 t2. step rb pinv s1 e1 sensors end_eff = Inr t1 \<and>
                  step rb pinv s2 e2 sensors end_eff = Inr t2 \<and>
                  motors t1 = motors t2 \<and> same_but_angular t1 t2)"
proof -
  from spin_once_same[OF assms] show ?thesis
  proof (elim disjE exE conjE)
    fix err assume "spin_once s1 e1 = Inl err" and "spin_once s2 e2 = Inl err"
    then show ?thesis by (simp add: step_def)
  next
    fix t1 t2
    assume sp: "spin_once s1 e1 = Inr t1" "spin_once s2 e2 = Inr t2"
      and rel: "same_but_angular t1 t2"
    from rel have lin: "linear_v (target_twist t1) = linear_v (target_twist t2)"
      by (simp add: same_but_angular_def same_linear_def)
    note eq = step_after_spin[OF rel, where rb = rb and pinv = pinv
        and rd = "map sensors [0..<N_JOINTS]" and dt = "32 / 1000" and end_eff = end_eff]
    show ?thesis
    proof (cases "step rb pinv s2 e2 sensors end_eff")
      case (Inl err)
      then have "step rb pinv s1 e1 sensors end_eff = Inl err"
        using eq sp by (simp add: step_def Let_def)
      with Inl show ?thesis by simp
    next
      case (Inr u2)
      then have u1: "step rb pinv s1 e1 sensors end_eff = Inr (u2\<lparr>target_twist := target_twist t1\<rparr>)"
        using eq sp by (simp add: step_def Let_def)
      have tw: "linear_v (target_twist u2) = linear_v (target_twist t2)"
        using Inr sp by (auto simp: step_def Let_def split: sum.splits)
      have "same_but_angular (u2\<lparr>target_twist := target_twist t1\<rparr>) u2"
        using lin tw by (simp add: same_but_angular_def same_linear_def)
      with u1 Inr show ?thesis by simp
    qed
  qed
qed

lemma example_pose:
  "get_end_effector_pose example_end_eff =
     Inr \<lparr>position = \<lparr>vec_x = 1 / 2, vec_y = 0, vec_z = 1 / 4\<rparr>,
          orientation = \<lparr>quat_x = Fin 0, quat_y = Fin 0, quat_z = Fin 0, quat_w = Fin 1\<rparr>\<rparr>"
  by (simp add: get_end_effector_pose_def reshape_4_4_def example_end_eff_def
      rotation_matrix_to_quaternion_def np_sqrt_def)

lemma example_step_succeeds:
  "\<exists>t. step example_robot example_pinv example_driver (Some (TwistMsg example_twist))
         (\<lambda>i. 0) example_end_eff = Inr t"
proof -
  let ?q = "map (\<lambda>i. 0::real) [0..<N_JOINTS]"
  let ?dx = "[vec_x (linear_v (target_twist example_driver)),
              vec_y (linear_v (target_twist example_driver)),
              vec_z (linear_v (target_twist example_driver))]"
  let ?g = "gain example_driver"
  have ws: "well_shaped example_robot example_pinv ?q ?dx ?g"
    by (rule example_well_shaped) (simp_all add: N_JOINTS_def)
  let ?tgt = "clip (candidate example_robot example_pinv ?q ?dx ?g (32 / 1000)) (- RAD_120) RAD_120"
  have up: "update_joint_position example_robot example_pinv ?q ?dx ?g (32 / 1000) = Inr ?tgt"
    using ws by (simp only: update_joint_position_def not_True_eq_False if_False)
  have cl: "length (candidate example_robot example_pinv ?q ?dx ?g (32 / 1000)) = N_JOINTS"
    by (rule candidate_length[OF ws])
  have lt: "length ?tgt = N_JOINTS"
    by (simp only: clip_def length_map cl)
  have lm: "length (motors example_driver) = N_JOINTS"
    by (simp add: example_driver_def N_JOINTS_def)
  have sp: "set_positions 0 ?tgt (motors example_driver) = Inr ?tgt"
    by (rule set_positions_all) (simp only: lt lm)
  have st: "spin_once example_driver (Some (TwistMsg example_twist)) = Inr example_driver"
    by (simp add: spin_once_def twist_callback_def example_driver_def)
  have "step example_robot example_pinv example_driver (Some (TwistMsg example_twist))
         (\<lambda>i. 0) example_end_eff =
        Inr (example_driver\<lparr>motors := ?tgt,
               published := published example_driver @
                 [\<lparr>position = \<lparr>vec_x = 1 / 2, vec_y = 0, vec_z = 1 / 4\<rparr>,
                   orientation = \<lparr>quat_x = Fin 0, quat_y = Fin 0, quat_z = Fin 0,
                                  quat_w = Fin 1\<rparr>\<rparr>]\<rparr>)"
    by (simp only: step_def st sum.case Let_def up sp example_pose)
  then show ?thesis by blast
qed

theorem step_ignores_angular_witness:
  "same_but_angular example_driver example_driver \<and>
   same_linear_event (Some (TwistMsg example_twist)) (Some (TwistMsg example_turning_twist)) \<and>
   angular_v example_twist \<noteq> angular_v example_turning_twist \<and>
   (\<exists>t1 t2. step example_robot example_pinv example_driver (Some (TwistMsg example_twist))
              (\<lambda>i. 0) example_end_eff = Inr t1 \<and>
            step example_robot example_pinv example_driver (Some (TwistMsg example_turning_twist))
              (\<lambda>i. 0) example_end_eff = Inr t2 \<and>
            motors t1 = motors t2 \<and> same_but_angular t1 t2)"
proof -
  have a: "same_but_angular example_driver example_driver"
    by (simp add: same_but_angular_def same_linear_def)
  have b: "same_linear_event (Some (TwistMsg example_twist)) (Some (TwistMsg example_turning_twist))"
    by (simp add: same_linear_def example_turning_twist_def)
  have c: "angular_v example_twist \<noteq> angular_v example_turning_twist"
    by (simp add: example_turning_twist_def example_twist_def)
  from step_ignores_angular[OF a b, of example_robot example_pinv "\<lambda>i. 0" example_end_eff]
    example_step_succeeds a b c
  show ?thesis by force
qed

section \<open>The pseudo-inverse\<close>

lemma sq_norm_sum: "sq_norm v = (\<Sum>k<length v. v ! k * v ! k)"
  by (simp add: sq_norm_def dot_sum)

lemma sq_norm_nonneg: "0 \<le> sq_norm v"
  unfolding sq_norm_sum by (rule sum_nonneg) simp

lemma sq_norm_zeroD:
  assumes "sq_norm v \<le> 0" and "i < length v"
  shows "v ! i = 0"
proof -
  from assms(1) have "(\<Sum>k<length v. v ! k * v ! k) = 0"
    using sq_norm_nonneg[of v] by (simp add: sq_norm_sum)
  then have "\<forall>k\<in>{..<length v}. v ! k * v ! k = 0"
    by (subst (asm) sum_nonneg_eq_0_iff) simp_all
  with assms(2) show ?thesis by simp
qed

lemma sq_norm_replicate_zero: "sq_norm (replicate n 0) = 0"
  by (simp add: sq_norm_def dot_zero_right)

lemma residual_zeroD:
  assumes "residual A x b \<le> 0" and "length b = length A" and "i < length A"
  shows "matvec A x ! i = b ! i"
proof -
  have "i < length (vec_sub (matvec A x) b)"
    using assms(2,3) by (simp add: vec_sub_def length_matvec)
  from sq_norm_zeroD[OF assms(1)[unfolded residual_def] this]
  show ?thesis using assms(2,3) by (simp add: vec_sub_def length_matvec)
qed

lemma residual_exact:
  assumes "matvec A y = b"
  shows "residual A y b = 0"
proof -
  have "vec_sub b b = replicate (length b) 0"
    by (rule nth_equalityI) (simp_all add: vec_sub_def)
  then show ?thesis by (simp add: residual_def assms sq_norm_replicate_zero)
qed

lemma matvec_unit:
  assumes A: "shape m n A" and j: "j < n"
  shows "matvec A (eye n ! j) = col A j"
proof (rule nth_equalityI)
  show "length (matvec A (eye n ! j)) = length (col A j)"
    by (simp add: length_matvec col_def)
next
  fix i assume "i < length (matvec A (eye n ! j))"
  then have i: "i < m" using A by (simp add: length_matvec shape_length)
  have le: "length (eye n ! j) = n" using j by (simp add: eye_def)
  have "matvec A (eye n ! j) ! i = (\<Sum>k<n. A ! i ! k * eye n ! j ! k)"
    using matvec_nth[of i A "eye n ! j"] i by (simp add: shape_length[OF A] shape_nth[OF A] le)
  also have "\<dots> = (\<Sum>k<n. if k = j then A ! i ! k else 0)"
    by (rule sum.cong) (simp_all add: eye_nth j)
  also have "\<dots> = A ! i ! j" using j by simp
  finally show "matvec A (eye n ! j) ! i = col A j ! i"
    using i by (simp add: col_def shape_length[OF A])
qed

lemma matvec_col:
  assumes X: "shape n m X" and A: "shape m n A" and j: "j < n" and l: "l < n" and m: "0 < m"
  shows "matvec X (col A j) ! l = matmul X A ! l ! j"
proof -
  have "matvec X (col A j) ! l = (\<Sum>p<m. X ! l ! p * col A j ! p)"
    using matvec_nth[of l X "col A j"] l
    by (simp add: shape_length[OF X] shape_nth[OF X] col_def shape_length[OF A])
  also have "\<dots> = (\<Sum>p<m. X ! l ! p * A ! p ! j)"
    by (rule sum.cong) (simp_all add: col_def shape_length[OF A])
  also have "\<dots> = matmul X A ! l ! j"
    using matmul_nth[of l X j A] l j
    by (simp add: shape_length[OF X] shape_nth[OF X] shape_length[OF A] ncols_shape[OF A m])
  finally show ?thesis .
qed

lemma moore_penrose_identity:
  assumes mp: "moore_penrose A X" and A: "shape m n A" and m: "0 < m" and n: "0 < n"
  shows "matmul A (matmul X A) = A"
proof (rule mat_eqI[where m = m and n = n])
  have nc: "ncols A = n" using A m by (rule ncols_shape)
  have lA: "length A = m" using A by (rule shape_length)
  from mp have X: "shape n m X" by (simp add: moore_penrose_def nc lA)
  have XA: "shape n n (matmul X A)"
    using shape_matmul[of X A] by (simp add: shape_length[OF X] nc)
  have ncXA: "ncols (matmul X A) = n" using XA n by (rule ncols_shape)
  show "shape m n (matmul A (matmul X A))"
    using shape_matmul[of A "matmul X A"] by (simp add: lA ncXA)
  show "shape m n A" by fact
  fix i j assume i: "i < m" and j: "j < n"
  let ?b = "col A j"
  have lb: "length ?b = length A" by (simp add: col_def)
  from mp lb have ls: "least_squares A ?b (matvec X ?b)"
    by (simp add: moore_penrose_def)
  have le: "length (eye n ! j) = ncols A" using j by (simp add: eye_def nc)
  from ls le have "residual A (matvec X ?b) ?b \<le> residual A (eye n ! j) ?b"
    by (simp add: least_squares_def)
  also have "\<dots> = 0"
    by (rule residual_exact) (rule matvec_unit[OF A j])
  finally have "matvec A (matvec X ?b) ! i = ?b ! i"
    using lb i lA by (intro residual_zeroD) simp_all
  then have solved: "matvec A (matvec X ?b) ! i = A ! i ! j"
    using i by (simp add: col_def lA)
  have "matmul A (matmul X A) ! i ! j = (\<Sum>l<n. A ! i ! l * matmul X A ! l ! j)"
    using matmul_nth[of i A j "matmul X A"] i j
    by (simp add: lA ncXA shape_nth[OF A] shape_length[OF XA])
  also have "\<dots> = (\<Sum>l<n. A ! i ! l * matvec X ?b ! l)"
    by (rule sum.cong) (simp_all add: matvec_col[OF X A j _ m])
  also have "\<dots> = matvec A (matvec X ?b) ! i"
    using matvec_nth[of i A "matvec X ?b"] i
    by (simp add: lA shape_nth[OF A] length_matvec shape_length[OF X])
  finally show "matmul A (matmul X A) ! i ! j = A ! i ! j"
    using solved by simp
qed

lemma dot_zero_left: "dot (replicate k 0) ys = 0"
proof (induction ys arbitrary: k)
  case Nil
  then show ?case by (simp add: dot_def)
next
  case (Cons y ys)
  from Cons.IH show ?case by (cases k) (simp_all add: dot_def)
qed

lemma matvec_zeros: "matvec (zeros m k) v = replicate m 0"
  by (simp add: matvec_def zeros_def dot_zero_left)

lemma reshape_col_zero: "reshape_col (replicate m 0) = zeros m 1"
  by (simp add: reshape_col_def zeros_def)

lemma mat_add_zeros_left:
  assumes "shape m n A"
  shows "mat_add (zeros m n) A = A"
proof (rule mat_eqI[where m = m and n = n])
  show "shape m n (mat_add (zeros m n) A)"
    using shape_zeros assms by (rule shape_mat_add)
  show "shape m n A" by fact
  fix i j assume "i < m" and "j < n"
  then show "mat_add (zeros m n) A ! i ! j = A ! i ! j"
    using mat_add_nth[OF shape_zeros assms, of i j] by (simp add: zeros_nth)
qed

lemma moore_penrose_zeros:
  assumes mp: "moore_penrose (zeros m n) X" and m: "0 < m" and n: "0 < n"
  shows "X = zeros n m"
proof (rule mat_eqI[where m = n and n = m])
  let ?Z = "zeros m n"
  have nc: "ncols ?Z = n" using shape_zeros m by (rule ncols_shape)
  have lZ: "length ?Z = m" by (simp add: zeros_def)
  from mp show X: "shape n m X" by (simp add: moore_penrose_def nc lZ)
  show "shape n m (zeros n m)" by (rule shape_zeros)
  fix l p assume l: "l < n" and p: "p < m"
  let ?b = "eye m ! p"
  have lb: "length ?b = length ?Z" using p by (simp add: eye_def lZ)
  have "least_squares ?Z ?b (replicate n 0)"
    by (simp add: least_squares_def nc residual_def matvec_zeros)
  with mp lb have "sq_norm (matvec X ?b) \<le> sq_norm (replicate n 0)"
    by (simp add: moore_penrose_def)
  then have "sq_norm (matvec X ?b) \<le> 0" by (simp add: sq_norm_replicate_zero)
  moreover have "l < length (matvec X ?b)"
    using l by (simp add: length_matvec shape_length[OF X])
  ultimately have "matvec X ?b ! l = 0" by (rule sq_norm_zeroD)
  then have "col X p ! l = 0" by (simp add: matvec_unit[OF X p])
  then show "X ! l ! p = zeros n m ! l ! p"
    using l p by (simp add: col_def shape_length[OF X] zeros_nth)
qed

lemma non_interference:
  assumes mp: "moore_penrose A X" and A: "shape m n A" and Q: "shape n k Q"
    and m: "0 < m" and n: "0 < n"
  shows "matmul A (matmul (mat_sub (eye n) (matmul X A)) Q) = zeros m k"
proof -
  have nc: "ncols A = n" using A m by (rule ncols_shape)
  have lA: "length A = m" using A by (rule shape_length)
  from mp have X: "shape n m X" by (simp add: moore_penrose_def nc lA)
  have XA: "shape n n (matmul X A)"
    using shape_matmul[of X A] by (simp add: shape_length[OF X] nc)
  have P: "shape n n (mat_sub (eye n) (matmul X A))"
    using shape_eye XA by (rule shape_mat_sub)
  have "matmul A (mat_sub (eye n) (matmul X A)) = mat_sub A (matmul A (matmul X A))"
    using A XA n by (rule matmul_sub_eye)
  also have "\<dots> = mat_sub A A"
    by (simp only: moore_penrose_identity[OF mp A m n])
  also have "\<dots> = zeros m n" using A by (rule mat_sub_self)
  finally have z: "matmul A (mat_sub (eye n) (matmul X A)) = zeros m n" .
  have "matmul A (matmul (mat_sub (eye n) (matmul X A)) Q)
        = matmul (matmul A (mat_sub (eye n) (matmul X A))) Q"
    using A P Q n n by (rule matmul_assoc)
  also have "\<dots> = zeros m (ncols Q)"
    unfolding z by (rule matmul_zeros_left) (rule shape_length[OF Q])
  also have "ncols Q = k" using Q n by (rule ncols_shape)
  finally show ?thesis .
qed

lemma length_3_entries: "length (b :: real list) = 3 \<Longrightarrow> \<exists>b0 b1 b2. b = [b0, b1, b2]"
  by (auto simp: numeral_3_eq_3 length_Suc_conv)

lemma length_7_entries:
  "length (y :: real list) = 7 \<Longrightarrow> \<exists>y0 y1 y2 y3 y4 y5 y6. y = [y0, y1, y2, y3, y4, y5, y6]"
  by (auto simp: eval_nat_numeral length_Suc_conv)

lemma example_jacobian_of_robot: "jacobian example_robot q = example_jacobian"
  by (simp add: example_robot_def)

lemma example_pinv_jacobian:
  "example_pinv example_jacobian =
     [[1, 0, 0], [0, 1, 0], [0, 0, 1], [0, 0, 0], [0, 0, 0], [0, 0, 0], [0, 0, 0]]"
  by (simp add: example_pinv_def example_jacobian_def mat_transpose_def ncols_def col_def upt_7)

lemma example_moore_penrose: "moore_penrose example_jacobian (example_pinv example_jacobian)"
proof -
  let ?A = "example_jacobian" and ?X = "example_pinv example_jacobian"
  have nc: "ncols ?A = 7" and lA: "length ?A = 3"
    by (simp_all add: example_jacobian_def ncols_def)
  have sh: "shape (ncols ?A) (length ?A) ?X"
    by (simp add: nc lA example_pinv_jacobian shape_def)
  have main: "least_squares ?A b (matvec ?X b) \<and>
      (\<forall>y. least_squares ?A b y \<longrightarrow> sq_norm (matvec ?X b) \<le> sq_norm y)"
    if "length b = length ?A" for b
  proof -
    from that lA length_3_entries obtain b0 b1 b2 where b: "b = [b0, b1, b2]" by metis
    have Xb: "matvec ?X b = [b0, b1, b2, 0, 0, 0, 0]"
      by (simp add: example_pinv_jacobian b matvec_def dot_def)
    have AXb: "matvec ?A (matvec ?X b) = b"
      unfolding Xb by (simp add: example_jacobian_def b matvec_def dot_def)
    have r0: "residual ?A (matvec ?X b) b = 0" using AXb by (rule residual_exact)
    have ls: "least_squares ?A b (matvec ?X b)"
      unfolding least_squares_def
    proof (intro conjI allI impI)
      show "length (matvec ?X b) = ncols ?A" by (simp add: nc Xb)
      fix y
      show "residual ?A (matvec ?X b) b \<le> residual ?A y b"
        unfolding r0 by (simp add: residual_def sq_norm_nonneg)
    qed
    have mn: "sq_norm (matvec ?X b) \<le> sq_norm y" if y: "least_squares ?A b y" for y
    proof -
      from y have ly: "length y = 7" and "residual ?A y b \<le> residual ?A (matvec ?X b) b"
        by (simp_all add: least_squares_def nc Xb)
      then have le0: "residual ?A y b \<le> 0" by (simp add: r0)
      from ly length_7_entries obtain y0 y1 y2 y3 y4 y5 y6
        where yy: "y = [y0, y1, y2, y3, y4, y5, y6]" by metis
      have Ay: "matvec ?A y = [y0, y1, y2]"
        by (simp add: yy example_jacobian_def matvec_def dot_def)
      have "matvec ?A y ! 0 = b ! 0" "matvec ?A y ! 1 = b ! 1" "matvec ?A y ! 2 = b ! 2"
        using le0 by (intro residual_zeroD; simp add: b lA)+
      then have e: "y0 = b0" "y1 = b1" "y2 = b2" by (simp_all add: Ay b)
      have "sq_norm (matvec ?X b) = b0 * b0 + b1 * b1 + b2 * b2"
        by (simp add: Xb sq_norm_def dot_def)
      also have "\<dots> \<le> b0 * b0 + b1 * b1 + b2 * b2 + (y3 * y3 + y4 * y4 + y5 * y5 + y6 * y6)"
        by simp
      also have "\<dots> = sq_norm y"
        by (simp add: yy e sq_norm_def dot_def)
      finally show ?thesis .
    qed
    from ls mn show ?thesis by blast
  qed
  show ?thesis
    unfolding moore_penrose_def using sh main by blast
qed

lemma zeros_moore_penrose:
  assumes "0 < m"
  shows "moore_penrose (zeros m n) (zeros n m)"
proof -
  have nc: "ncols (zeros m n) = n" using shape_zeros assms by (rule ncols_shape)
  have lZ: "length (zeros m n) = m" by (simp add: zeros_def)
  have "least_squares (zeros m n) b (matvec (zeros n m) b)" for b
    by (simp add: least_squares_def nc residual_def matvec_zeros)
  moreover have "sq_norm (matvec (zeros n m) b) \<le> sq_norm y" for b y
    by (simp add: matvec_zeros sq_norm_replicate_zero sq_norm_nonneg)
  ultimately show ?thesis
    by (simp add: moore_penrose_def nc lZ shape_zeros)
qed

text \<open>
  Claim C3.  For every Jacobian \<open>J\<close> of three rows and \<open>N_JOINTS\<close> columns, a
  pseudo-inverse \<open>J\<^sup>+\<close> of \<open>J\<close> (for every \<open>b\<close>, \<open>J\<^sup>+ b\<close> is the least-squares solution of
  \<open>J x = b\<close> of minimum norm) satisfies \<open>J J\<^sup>+ J = J\<close>, and therefore the null-space term of
  the resolver, \<open>(I - J\<^sup>+ J) q0dot\<close>, is mapped to zero by \<open>J\<close> for every column \<open>q0dot\<close>.
\<close>

theorem null_space_non_interference:
  assumes "well_shaped rb pinv q dx k0"
    and "moore_penrose (jacobian rb q) (pinv (jacobian rb q))"
  shows "matmul (jacobian rb q) (matmul (pinv (jacobian rb q)) (jacobian rb q)) = jacobian rb q \<and>
         matmul (jacobian rb q) (null_space_velocity rb pinv q k0) = zeros 3 1"
proof -
  from assms(1) have J: "shape 3 N_JOINTS (jacobian rb q)"
    and Q: "shape N_JOINTS 1 (q0dot rb q k0)"
    by (simp_all add: well_shaped_def)
  have n: "0 < N_JOINTS" by (simp add: N_JOINTS_def)
  have "matmul (jacobian rb q) (matmul (pinv (jacobian rb q)) (jacobian rb q)) = jacobian rb q"
    using assms(2) J _ n by (rule moore_penrose_identity) simp
  moreover have "matmul (jacobian rb q) (null_space_velocity rb pinv q k0) = zeros 3 1"
    unfolding null_space_velocity_def Let_def
    using assms(2) J Q _ n by (rule non_interference) simp
  ultimately show ?thesis by simp
qed

theorem null_space_non_interference_witness:
  "well_shaped example_robot example_pinv [1, 0, 0, 0, 0, 0, 2] [10, 0, -5] 3 \<and>
   moore_penrose (jacobian example_robot [1, 0, 0, 0, 0, 0, 2])
     (example_pinv (jacobian example_robot [1, 0, 0, 0, 0, 0, 2])) \<and>
   matmul (jacobian example_robot [1, 0, 0, 0, 0, 0, 2])
     (matmul (example_pinv (jacobian example_robot [1, 0, 0, 0, 0, 0, 2]))
        (jacobian example_robot [1, 0, 0, 0, 0, 0, 2])) =
     jacobian example_robot [1, 0, 0, 0, 0, 0, 2] \<and>
   matmul (jacobian example_robot [1, 0, 0, 0, 0, 0, 2])
     (null_space_velocity example_robot example_pinv [1, 0, 0, 0, 0, 0, 2] 3) = zeros 3 1"
proof -
  have w: "well_shaped example_robot example_pinv [1, 0, 0, 0, 0, 0, 2] [10, 0, -5] 3"
    by (rule example_well_shaped) simp_all
  have m: "moore_penrose (jacobian example_robot [1, 0, 0, 0, 0, 0, 2])
             (example_pinv (jacobian example_robot [1, 0, 0, 0, 0, 0, 2]))"
    unfolding example_jacobian_of_robot by (rule example_moore_penrose)
  from null_space_non_interference[OF w m] w m show ?thesis by blast
qed

lemma singular_resolver:
  assumes lq: "length q = N_JOINTS" and ldx: "length dx = 3"
    and J0: "jacobian rb q = zeros 3 N_JOINTS"
    and mp: "moore_penrose (jacobian rb q) (pinv (jacobian rb q))"
    and Q: "shape N_JOINTS 1 (q0dot rb q k0)"
  shows "pinv (jacobian rb q) = zeros N_JOINTS 3"
    and "well_shaped rb pinv q dx k0"
    and "task_velocity rb pinv q dx = zeros N_JOINTS 1"
    and "mat_sub (eye N_JOINTS) (matmul (pinv (jacobian rb q)) (jacobian rb q)) = eye N_JOINTS"
    and "null_space_velocity rb pinv q k0 = q0dot rb q k0"
    and "candidate rb pinv q dx k0 dt = vec_add q (map (\<lambda>v. v * dt) (flatten (q0dot rb q k0)))"
proof -
  have n: "0 < N_JOINTS" by (simp add: N_JOINTS_def)
  show X0: "pinv (jacobian rb q) = zeros N_JOINTS 3"
    using mp unfolding J0 by (rule moore_penrose_zeros) (simp_all add: n)
  have "shape N_JOINTS 3 (pinv (jacobian rb q))"
    unfolding X0 by (rule shape_zeros)
  moreover have "shape 3 N_JOINTS (jacobian rb q)"
    unfolding J0 by (rule shape_zeros)
  ultimately show ws: "well_shaped rb pinv q dx k0"
    unfolding well_shaped_def using lq ldx Q by blast
  show tv: "task_velocity rb pinv q dx = zeros N_JOINTS 1"
    by (simp add: task_velocity_def Let_def X0 matvec_zeros reshape_col_zero)
  have "matmul (zeros N_JOINTS 3) (zeros 3 N_JOINTS) = zeros N_JOINTS (ncols (zeros 3 N_JOINTS))"
    by (rule matmul_zeros_left) (simp add: zeros_def)
  also have "ncols (zeros 3 N_JOINTS) = N_JOINTS"
    using shape_zeros by (rule ncols_shape) simp
  finally have XJ: "matmul (zeros N_JOINTS 3) (zeros 3 N_JOINTS) = zeros N_JOINTS N_JOINTS" .
  have X0': "pinv (zeros 3 N_JOINTS) = zeros N_JOINTS 3"
    using X0 unfolding J0 .
  show P: "mat_sub (eye N_JOINTS) (matmul (pinv (jacobian rb q)) (jacobian rb q)) = eye N_JOINTS"
    unfolding J0 X0' XJ by (rule mat_sub_zeros[OF shape_eye])
  show nv: "null_space_velocity rb pinv q k0 = q0dot rb q k0"
    unfolding null_space_velocity_def Let_def P
    using Q n by (rule matmul_eye_left)
  show "candidate rb pinv q dx k0 dt = vec_add q (map (\<lambda>v. v * dt) (flatten (q0dot rb q k0)))"
    unfolding candidate_def Let_def tv nv
    by (simp only: mat_add_zeros_left[OF Q])
qed

text \<open>
  Claim C7.  When the Jacobian is the zero matrix of three rows and \<open>N_JOINTS\<close> columns, its
  pseudo-inverse is the zero matrix, the task term is zero, the projector \<open>I - J\<^sup>+ J\<close> is
  the identity, the null-space term is \<open>q0dot\<close>, and the resolver returns, without an
  error, \<open>q + q0dot * dt\<close> clamped entry by entry to \<open>[-2\<pi>/3, 2\<pi>/3]\<close>.
\<close>

theorem singular_jacobian_defined:
  assumes "length q = N_JOINTS" and "length dx = 3"
    and "jacobian rb q = zeros 3 N_JOINTS"
    and "moore_penrose (jacobian rb q) (pinv (jacobian rb q))"
    and "shape N_JOINTS 1 (q0dot rb q k0)"
  shows "pinv (jacobian rb q) = zeros N_JOINTS 3 \<and>
         task_velocity rb pinv q dx = zeros N_JOINTS 1 \<and>
         mat_sub (eye N_JOINTS) (matmul (pinv (jacobian rb q)) (jacobian rb q)) = eye N_JOINTS \<and>
         null_space_velocity rb pinv q k0 = q0dot rb q k0 \<and>
         update_joint_position rb pinv q dx k0 dt =
           Inr (clip (vec_add q (map (\<lambda>v. v * dt) (flatten (q0dot rb q k0))))
                  (- (2 * pi / 3)) (2 * pi / 3))"
  using singular_resolver[where pinv = pinv, OF assms]
  by (simp add: update_joint_position_def RAD_120_eq)

lemma singular_robot_facts:
  "jacobian singular_robot q = zeros 3 N_JOINTS"
  "length q = 7 \<Longrightarrow> shape N_JOINTS 1 (q0dot singular_robot q k0)"
  by (simp_all add: singular_robot_def N_JOINTS_def shape_def list_all_iff)

lemma replicate_3: "replicate 3 a = [a, a, a]"
  by (simp add: numeral_3_eq_3)

lemma replicate_7: "replicate 7 a = [a, a, a, a, a, a, a]"
  by (simp add: eval_nat_numeral)

lemma example_pinv_zeros: "example_pinv (zeros 3 N_JOINTS) = zeros N_JOINTS 3"
  by (simp add: example_pinv_def mat_transpose_def zeros_def ncols_def col_def N_JOINTS_def
      replicate_3 replicate_7 upt_7)

theorem singular_jacobian_defined_witness:
  "length [1, 0, 0, 0, 0, 0, 2 :: real] = N_JOINTS \<and> length [10, 0, -5 :: real] = 3 \<and>
   jacobian singular_robot [1, 0, 0, 0, 0, 0, 2] = zeros 3 N_JOINTS \<and>
   moore_penrose (jacobian singular_robot [1, 0, 0, 0, 0, 0, 2])
     (example_pinv (jacobian singular_robot [1, 0, 0, 0, 0, 0, 2])) \<and>
   shape N_JOINTS 1 (q0dot singular_robot [1, 0, 0, 0, 0, 0, 2] 3) \<and>
   example_pinv (jacobian singular_robot [1, 0, 0, 0, 0, 0, 2]) = zeros N_JOINTS 3 \<and>
   update_joint_position singular_robot example_pinv [1, 0, 0, 0, 0, 0, 2] [10, 0, -5] 3 (1 / 10) =
     Inr (clip (vec_add [1, 0, 0, 0, 0, 0, 2]
                  (map (\<lambda>v. v * (1 / 10)) (flatten (q0dot singular_robot [1, 0, 0, 0, 0, 0, 2] 3))))
            (- (2 * pi / 3)) (2 * pi / 3))"
proof -
  have a: "length [1, 0, 0, 0, 0, 0, 2 :: real] = N_JOINTS" by (simp add: N_JOINTS_def)
  have b: "length [10, 0, -5 :: real] = 3" by simp
  have c: "jacobian singular_robot [1, 0, 0, 0, 0, 0, 2] = zeros 3 N_JOINTS"
    by (rule singular_robot_facts)
  have d: "moore_penrose (jacobian singular_robot [1, 0, 0, 0, 0, 0, 2])
             (example_pinv (jacobian singular_robot [1, 0, 0, 0, 0, 0, 2]))"
    unfolding c example_pinv_zeros by (rule zeros_moore_penrose) simp
  have e: "shape N_JOINTS 1 (q0dot singular_robot [1, 0, 0, 0, 0, 0, 2] 3)"
    by (rule singular_robot_facts) simp
  from singular_jacobian_defined[where pinv = example_pinv and dt = "1 / 10", OF a b c d e]
    a b c d e
  show ?thesis by blast
qed

section \<open>Further properties\<close>

text \<open>
  Every proper rotation by 180 degrees, not only the half turn about the first axis, makes
  the extractor return NaN for \<open>x\<close>, \<open>y\<close> and \<open>z\<close> and zero for \<open>w\<close>: such a matrix is
  symmetric, so each numerator is zero, and so is the divisor.
\<close>

theorem half_turn_all_nan:
  assumes "proper_rotation r" and "trace3 r = -1"
  shows "rotation_matrix_to_quaternion r = Inr [NaN, NaN, NaN, Fin 0]"
proof -
  from assms(1) have "shape 3 3 r" by (simp add: proper_rotation_def)
  from shape_3_3_entries[OF this] obtain a b c d e f g h i
    where r: "r = [[a, b, c], [d, e, f], [g, h, i]]" by blast
  from assms(1) have so: "so3 a b c d e f g h i"
    by (simp add: r proper_rotation_entries)
  from assms(2) have t: "1 + a + e + i = 0" by (simp add: r trace3_def)
  have "(h - f) * (h - f) + (c - g) * (c - g) + (d - b) * (d - b) = 0"
    unfolding so3_antisym_norm[OF so] t by simp
  then have "h - f = 0 \<and> c - g = 0 \<and> d - b = 0"
    by (simp add: sum_squares_eq_zero_iff add_nonneg_eq_0_iff)
  then show ?thesis
    unfolding r extractor_entries t by (simp add: np_sqrt_def)
qed

theorem half_turn_all_nan_witness:
  "proper_rotation [[-1, 0, 0], [0, 1, 0], [0, 0, -1]] \<and>
   trace3 [[-1, 0, 0], [0, 1, 0], [0, 0, -1]] = -1 \<and>
   rotation_matrix_to_quaternion [[-1, 0, 0], [0, 1, 0], [0, 0, -1]] = Inr [NaN, NaN, NaN, Fin 0]"
proof -
  have p: "proper_rotation [[-1, 0, 0], [0, 1, 0], [0, 0, -1]]"
    by (simp add: proper_rotation_entries so3_def)
  have t: "trace3 [[-1, 0, 0], [0, 1, 0], [0, 0, -1]] = -1"
    by (simp add: trace3_def)
  from half_turn_all_nan[OF p t] p t show ?thesis by blast
qed

text \<open>
  A request that carries more angles than there are motors raises \<open>IndexError\<close> in the
  loop over the request: no response is produced.
\<close>

lemma set_positions_overflow:
  "i \<le> length ms \<Longrightarrow> length ms < i + length vs \<Longrightarrow> set_positions i vs ms = Inl IndexError"
proof (induction vs arbitrary: i ms)
  case Nil
  then show ?case by simp
next
  case (Cons v vs)
  show ?case
  proof (cases "i < length ms")
    case True
    then have "Suc i \<le> length (ms[i := v])" by simp
    moreover from Cons.prems have "length (ms[i := v]) < Suc i + length vs" by simp
    ultimately have "set_positions (Suc i) vs (ms[i := v]) = Inl IndexError"
      by (rule Cons.IH)
    with True show ?thesis by simp
  next
    case False
    then show ?thesis by simp
  qed
qed

theorem init_joint_state_too_long:
  assumes "length (motors st) < length joint_state"
  shows "init_joint_state_callback st joint_state = Inl IndexError"
  using set_positions_overflow[of 0 "motors st" joint_state] assms
  by (simp add: init_joint_state_callback_def)

theorem init_joint_state_too_long_witness:
  "length (motors example_driver) < length [0, 0, 0, 0, 0, 0, 0, 1 :: real] \<and>
   init_joint_state_callback example_driver [0, 0, 0, 0, 0, 0, 0, 1] = Inl IndexError"
proof -
  have l: "length (motors example_driver) < length [0, 0, 0, 0, 0, 0, 0, 1 :: real]"
    by (simp add: example_driver_def)
  from init_joint_state_too_long[OF l] l show ?thesis by blast
qed

text \<open>
  When \<open>1 + R00 + R11 + R22\<close> is negative the square root is NaN and so are all four
  entries of the result.
\<close>

theorem negative_radicand_all_nan:
  assumes "shape 3 3 r" and "1 + trace3 r < 0"
  shows "rotation_matrix_to_quaternion r = Inr [NaN, NaN, NaN, NaN]"
proof -
  from shape_3_3_entries[OF assms(1)] obtain a b c d e f g h i
    where r: "r = [[a, b, c], [d, e, f], [g, h, i]]" by blast
  from assms(2) have "1 + a + e + i < 0" by (simp add: r trace3_def)
  then show ?thesis
    unfolding r extractor_entries by (simp add: np_sqrt_def)
qed

theorem negative_radicand_all_nan_witness:
  "shape 3 3 [[-1, 0, 0], [0, -1, 0], [0, 0, -1 :: real]] \<and>
   1 + trace3 [[-1, 0, 0], [0, -1, 0], [0, 0, -1]] < 0 \<and>
   rotation_matrix_to_quaternion [[-1, 0, 0], [0, -1, 0], [0, 0, -1]] = Inr [NaN, NaN, NaN, NaN]"
proof -
  have s: "shape 3 3 [[-1, 0, 0], [0, -1, 0], [0, 0, -1 :: real]]" by (simp add: shape_def)
  have t: "1 + trace3 [[-1, 0, 0], [0, -1, 0], [0, 0, -1]] < 0" by (simp add: trace3_def)
  from negative_radicand_all_nan[OF s t] s t show ?thesis by blast
qed

section \<open>Non-finite values in the resolver\<close>

lemma np_clip_entry_cases:
  assumes "lo \<le> hi"
  shows "(v = NaN \<and> np_minimum (Fin hi) (np_maximum v (Fin lo)) = NaN) \<or>
         (v \<noteq> NaN \<and> (\<exists>w. np_minimum (Fin hi) (np_maximum v (Fin lo)) = Fin w \<and> lo \<le> w \<and> w \<le> hi))"
  using assms by (cases v) (simp_all add: min_def max_def)

lemma within_range_Fin: "within_range v \<longleftrightarrow> (\<exists>w. v = Fin w \<and> - (2 * pi / 3) \<le> w \<and> w \<le> 2 * pi / 3)"
  by (cases v) simp_all

lemma np_clip_nth:
  "i < length c \<Longrightarrow> np_clip c lo hi ! i = np_minimum (Fin hi) (np_maximum (c ! i) (Fin lo))"
  by (simp add: np_clip_def)

lemma np_clip_range:
  assumes "i < length c"
  shows "(c ! i = NaN \<and> np_clip c (- (2 * pi / 3)) (2 * pi / 3) ! i = NaN) \<or>
         (c ! i \<noteq> NaN \<and> within_range (np_clip c (- (2 * pi / 3)) (2 * pi / 3) ! i))"
proof -
  have "- (2 * pi / 3) \<le> 2 * pi / 3" by simp
  from np_clip_entry_cases[OF this, of "c ! i"] show ?thesis
    unfolding np_clip_nth[OF assms] within_range_Fin by blast
qed

lemma length_np_matvec: "length (np_matvec A v) = length A"
  by (simp add: np_matvec_def)

lemma shape_np_matmul: "shape (length A) (np_ncols B) (np_matmul A B)"
  by (simp add: shape_def np_matmul_def list_all_iff)

lemma np_ncols_shape: "shape m n A \<Longrightarrow> 0 < m \<Longrightarrow> np_ncols A = n"
  by (cases A) (simp_all add: shape_def np_ncols_def)

lemma shape_map2_rows:
  assumes "shape m n A" and "shape m n B"
  shows "shape m n (map2 (map2 f) A B)"
  using assms by (intro shapeI) (simp_all add: shape_length shape_nth)

lemma length_concat_col: "shape m 1 A \<Longrightarrow> length (concat A) = m"
proof (induction A arbitrary: m)
  case Nil
  then show ?case by (simp add: shape_def)
next
  case (Cons row A)
  from Cons.prems have "length row = 1" and "shape (length A) 1 A" and "m = Suc (length A)"
    by (auto simp: shape_def)
  with Cons.IH[of "length A"] show ?case by simp
qed

lemma np_joint_velocity_shape:
  assumes "np_well_shaped rb pinv q dx k0"
  shows "shape N_JOINTS 1
           (np_mat_add (np_task_velocity rb pinv q dx) (np_null_space_velocity rb pinv q k0))"
proof -
  from assms have JT: "shape N_JOINTS 3 (pinv (np_jacobian rb q))"
    and Q: "shape N_JOINTS 1 (np_q0dot rb q k0)"
    by (simp_all add: np_well_shaped_def)
  have n: "0 < N_JOINTS" by (simp add: N_JOINTS_def)
  have tv: "shape N_JOINTS 1 (np_task_velocity rb pinv q dx)"
    by (simp add: np_task_velocity_def Let_def shape_def list_all_iff length_np_matvec
        shape_length[OF JT])
  have "length (np_mat_sub (np_eye N_JOINTS) (np_matmul (pinv (np_jacobian rb q)) (np_jacobian rb q)))
        = N_JOINTS"
    by (simp add: np_mat_sub_def np_eye_def np_matmul_def shape_length[OF JT])
  then have nv: "shape N_JOINTS 1 (np_null_space_velocity rb pinv q k0)"
    using shape_np_matmul[of "np_mat_sub (np_eye N_JOINTS)
        (np_matmul (pinv (np_jacobian rb q)) (np_jacobian rb q))" "np_q0dot rb q k0"]
    by (simp add: np_null_space_velocity_def Let_def np_ncols_shape[OF Q n])
  show ?thesis
    unfolding np_mat_add_def using tv nv by (rule shape_map2_rows)
qed

lemma np_candidate_length:
  assumes "np_well_shaped rb pinv q dx k0"
  shows "length (np_candidate rb pinv q dx k0 dt) = N_JOINTS"
proof -
  from assms have "length q = N_JOINTS" by (simp add: np_well_shaped_def)
  then show ?thesis
    by (simp add: np_candidate_def Let_def length_concat_col[OF np_joint_velocity_shape[OF assms]])
qed

lemma np_dot_fin: "np_dot (map Fin xs) (map Fin ys) = Fin (dot xs ys)"
proof (induction xs arbitrary: ys)
  case Nil
  then show ?case by (simp add: np_dot_def dot_def)
next
  case (Cons x xs)
  show ?case
  proof (cases ys)
    case Nil
    then show ?thesis by (simp add: np_dot_def dot_def)
  next
    case (Cons y ys')
    with Cons.IH[of ys'] show ?thesis by (simp add: np_dot_def dot_def)
  qed
qed

lemma np_matvec_fin: "np_matvec (fin_mat A) (fin_vec v) = fin_vec (matvec A v)"
  by (simp add: np_matvec_def matvec_def fin_mat_def fin_vec_def np_dot_fin comp_def)

lemma shape_fin_mat: "shape m n (fin_mat A) \<longleftrightarrow> shape m n A"
  by (simp add: shape_def fin_mat_def list_all_iff)

lemma np_ncols_fin: "np_ncols (fin_mat B) = ncols B"
  by (cases B) (simp_all add: np_ncols_def ncols_def fin_mat_def)

lemma np_col_fin:
  assumes "shape k n B" and "j < n"
  shows "np_col (fin_mat B) j = map Fin (col B j)"
proof -
  have "row \<in> set B \<Longrightarrow> map Fin row ! j = Fin (row ! j)" for row
    using assms by (simp add: shape_def list_all_iff)
  then show ?thesis
    by (simp add: np_col_def col_def fin_mat_def comp_def)
qed

lemma fin_mat_simps: "fin_mat [] = []" "fin_mat (row # A) = map Fin row # fin_mat A"
  by (simp_all add: fin_mat_def)

lemma length_fin_vec: "length (fin_vec v) = length v"
  by (simp add: fin_vec_def)

lemma np_matmul_fin:
  assumes B: "shape k n B"
  shows "np_matmul (fin_mat A) (fin_mat B) = fin_mat (matmul A B)"
proof (induction A)
  case Nil
  then show ?case by (simp add: np_matmul_def matmul_def fin_mat_simps)
next
  case (Cons row A)
  have nc: "j < ncols B \<Longrightarrow> j < n" for j
    using B by (cases B) (simp_all add: ncols_def shape_def)
  have "map (\<lambda>j. np_dot (map Fin row) (np_col (fin_mat B) j)) [0..<ncols B]
        = map Fin (map (\<lambda>j. dot row (col B j)) [0..<ncols B])"
    by (simp add: np_col_fin[OF B nc] np_dot_fin)
  moreover have "np_matmul (fin_mat (row # A)) (fin_mat B) =
      map (\<lambda>j. np_dot (map Fin row) (np_col (fin_mat B) j)) [0..<ncols B] #
      np_matmul (fin_mat A) (fin_mat B)"
    by (simp add: np_matmul_def fin_mat_simps np_ncols_fin)
  moreover have "fin_mat (matmul (row # A) B) =
      map Fin (map (\<lambda>j. dot row (col B j)) [0..<ncols B]) # fin_mat (matmul A B)"
    by (simp add: matmul_def fin_mat_simps)
  ultimately show ?case using Cons.IH by simp
qed

lemma np_eye_fin: "np_eye n = fin_mat (eye n)"
  by (simp add: np_eye_def eye_def fin_mat_def comp_def if_distrib)

lemma map2_fin:
  assumes "\<And>a b. f (Fin a) (Fin b) = Fin (g a b)"
  shows "map2 f (map Fin xs) (map Fin ys) = map Fin (map2 g xs ys)"
proof (induction xs arbitrary: ys)
  case Nil
  then show ?case by simp
next
  case (Cons x xs)
  then show ?case by (cases ys) (simp_all add: assms)
qed

lemma np_mat_add_fin: "np_mat_add (fin_mat A) (fin_mat B) = fin_mat (mat_add A B)"
proof (induction A arbitrary: B)
  case Nil
  then show ?case by (simp add: np_mat_add_def mat_add_def fin_mat_def)
next
  case (Cons row A)
  show ?case
  proof (cases B)
    case Nil
    then show ?thesis by (simp add: np_mat_add_def mat_add_def fin_mat_def)
  next
    case (Cons row' B')
    have "map2 np_add (map Fin row) (map Fin row') = map Fin (map2 (+) row row')"
      by (rule map2_fin) simp
    with Cons.IH[of B'] Cons show ?thesis
      by (simp add: np_mat_add_def mat_add_def fin_mat_def vec_add_def)
  qed
qed

lemma np_mat_sub_fin: "np_mat_sub (fin_mat A) (fin_mat B) = fin_mat (mat_sub A B)"
proof (induction A arbitrary: B)
  case Nil
  then show ?case by (simp add: np_mat_sub_def mat_sub_def fin_mat_def)
next
  case (Cons row A)
  show ?case
  proof (cases B)
    case Nil
    then show ?thesis by (simp add: np_mat_sub_def mat_sub_def fin_mat_def)
  next
    case (Cons row' B')
    have "map2 np_sub (map Fin row) (map Fin row') = map Fin (map2 (-) row row')"
      by (rule map2_fin) (simp add: np_sub_def)
    with Cons.IH[of B'] Cons show ?thesis
      by (simp add: np_mat_sub_def mat_sub_def fin_mat_def vec_sub_def)
  qed
qed

lemma np_clip_fin: "np_clip (fin_vec a) lo hi = fin_vec (clip a lo hi)"
  by (simp add: np_clip_def clip_def fin_vec_def comp_def max.commute)

lemma concat_fin: "concat (fin_mat A) = fin_vec (flatten A)"
  by (simp add: fin_mat_def fin_vec_def flatten_def map_concat)

lemma reshape_col_fin: "map (\<lambda>a. [a]) (fin_vec v) = fin_mat (reshape_col v)"
  by (simp add: fin_mat_def fin_vec_def reshape_col_def comp_def)

text \<open>
  On finite values the two embeddings of the resolver agree: the one over the reals is the
  restriction of the one over \<open>npfloat\<close>, and \<open>clip\<close> is \<open>np_clip\<close> on finite entries.
\<close>

lemma np_update_joint_position_finite:
  assumes rb: "fin_robot rb nrb q k0"
    and pv: "npinv (fin_mat (jacobian rb q)) = fin_mat (pinv (jacobian rb q))"
  shows "np_update_joint_position nrb npinv (fin_vec q) (fin_vec dx) (Fin k0) dt =
         map_sum id fin_vec (update_joint_position rb pinv q dx k0 dt)"
proof -
  from rb have J: "np_jacobian nrb (fin_vec q) = fin_mat (jacobian rb q)"
    and Q: "np_q0dot nrb (fin_vec q) (Fin k0) = fin_mat (q0dot rb q k0)"
    by (simp_all add: fin_robot_def)
  have ws: "np_well_shaped nrb npinv (fin_vec q) (fin_vec dx) (Fin k0) = well_shaped rb pinv q dx k0"
    by (simp add: np_well_shaped_def well_shaped_def J Q pv shape_fin_mat length_fin_vec)
  show ?thesis
  proof (cases "well_shaped rb pinv q dx k0")
    case False
    then show ?thesis
      by (simp add: np_update_joint_position_def update_joint_position_def ws)
  next
    case True
    then have Jsh: "shape 3 N_JOINTS (jacobian rb q)" and Qsh: "shape N_JOINTS 1 (q0dot rb q k0)"
      by (simp_all add: well_shaped_def)
    have tv: "np_task_velocity nrb npinv (fin_vec q) (fin_vec dx) = fin_mat (task_velocity rb pinv q dx)"
      by (simp add: np_task_velocity_def task_velocity_def Let_def J pv np_matvec_fin reshape_col_fin)
    have nv: "np_null_space_velocity nrb npinv (fin_vec q) (Fin k0)
              = fin_mat (null_space_velocity rb pinv q k0)"
      by (simp add: np_null_space_velocity_def null_space_velocity_def Let_def J Q pv
          np_matmul_fin[OF Jsh] np_eye_fin np_mat_sub_fin np_matmul_fin[OF Qsh])
    have "map (\<lambda>v. np_mul v (Fin dt)) (fin_vec xs) = fin_vec (map (\<lambda>v. v * dt) xs)" for xs
      by (simp add: fin_vec_def comp_def)
    moreover have "map2 np_add (fin_vec xs) (fin_vec ys) = fin_vec (vec_add xs ys)" for xs ys
      unfolding fin_vec_def vec_add_def by (rule map2_fin) simp
    ultimately have "np_candidate nrb npinv (fin_vec q) (fin_vec dx) (Fin k0) dt
                     = fin_vec (candidate rb pinv q dx k0 dt)"
      by (simp add: np_candidate_def candidate_def Let_def tv nv np_mat_add_fin concat_fin)
    then show ?thesis
      using True by (simp add: np_update_joint_position_def update_joint_position_def ws np_clip_fin)
  qed
qed

lemma np_candidate_nth:
  assumes "np_well_shaped rb pinv q dx k0" and "i < N_JOINTS"
  shows "np_candidate rb pinv q dx k0 dt ! i =
         np_add (q ! i)
           (np_mul (concat (np_mat_add (np_task_velocity rb pinv q dx)
                              (np_null_space_velocity rb pinv q k0)) ! i) (Fin dt))"
proof -
  from assms have "length q = N_JOINTS" by (simp add: np_well_shaped_def)
  then show ?thesis
    using assms(2)
    by (simp add: np_candidate_def Let_def length_concat_col[OF np_joint_velocity_shape[OF assms(1)]])
qed

text \<open>
  Claim C2, as amended.  On every well-shaped input, finite or not, the resolver returns a
  vector of \<open>N_JOINTS\<close> entries; entry \<open>i\<close> is \<open>minimum(2\<pi>/3, maximum(c, -2\<pi>/3))\<close> for
  entry \<open>c\<close> of the candidate \<open>q + dq * dt\<close> at \<open>i\<close>, whatever the other entries are.  Where
  the candidate's entry is NaN the result's entry is NaN; everywhere else, also for an
  infinite entry, it is a finite number within \<open>[-2\<pi>/3, 2\<pi>/3]\<close>.  The same holds of
  the clamp applied to any vector, so also to a candidate that is NaN by an overflow, which
  the exact arithmetic of the model does not produce.
\<close>

theorem resolver_output_clamped_or_nan:
  assumes "np_well_shaped rb pinv q dx k0"
  shows "(\<exists>out. np_update_joint_position rb pinv q dx k0 dt = Inr out \<and>
           out = np_clip (np_candidate rb pinv q dx k0 dt) (- (2 * pi / 3)) (2 * pi / 3) \<and>
           length out = N_JOINTS \<and> length (np_candidate rb pinv q dx k0 dt) = N_JOINTS \<and>
           (\<forall>i<N_JOINTS.
              np_candidate rb pinv q dx k0 dt ! i =
                np_add (q ! i)
                  (np_mul (concat (np_mat_add (np_task_velocity rb pinv q dx)
                                     (np_null_space_velocity rb pinv q k0)) ! i) (Fin dt)) \<and>
              out ! i = np_minimum (Fin (2 * pi / 3))
                          (np_maximum (np_candidate rb pinv q dx k0 dt ! i) (Fin (- (2 * pi / 3)))) \<and>
              (np_candidate rb pinv q dx k0 dt ! i = NaN \<and> out ! i = NaN \<or>
               np_candidate rb pinv q dx k0 dt ! i \<noteq> NaN \<and> within_range (out ! i)))) \<and>
         (\<forall>c i. i < length c \<longrightarrow>
            c ! i = NaN \<and> np_clip c (- (2 * pi / 3)) (2 * pi / 3) ! i = NaN \<or>
            c ! i \<noteq> NaN \<and> within_range (np_clip c (- (2 * pi / 3)) (2 * pi / 3) ! i))"
proof -
  let ?c = "np_candidate rb pinv q dx k0 dt"
  let ?out = "np_clip ?c (- (2 * pi / 3)) (2 * pi / 3)"
  have len: "length ?c = N_JOINTS" by (rule np_candidate_length[OF assms])
  have "np_update_joint_position rb pinv q dx k0 dt = Inr ?out"
    using assms by (simp add: np_update_joint_position_def RAD_120_eq)
  moreover have "length ?out = N_JOINTS" using len by (simp add: np_clip_def)
  moreover have "\<forall>i<N_JOINTS.
      ?c ! i = np_add (q ! i)
                 (np_mul (concat (np_mat_add (np_task_velocity rb pinv q dx)
                                    (np_null_space_velocity rb pinv q k0)) ! i) (Fin dt)) \<and>
      ?out ! i = np_minimum (Fin (2 * pi / 3)) (np_maximum (?c ! i) (Fin (- (2 * pi / 3)))) \<and>
      (?c ! i = NaN \<and> ?out ! i = NaN \<or> ?c ! i \<noteq> NaN \<and> within_range (?out ! i))"
  proof (intro allI impI conjI)
    fix i assume i: "i < N_JOINTS"
    then have il: "i < length ?c" using len by simp
    show "?c ! i = np_add (q ! i)
                 (np_mul (concat (np_mat_add (np_task_velocity rb pinv q dx)
                                    (np_null_space_velocity rb pinv q k0)) ! i) (Fin dt))"
      by (rule np_candidate_nth[OF assms i])
    show "?out ! i = np_minimum (Fin (2 * pi / 3)) (np_maximum (?c ! i) (Fin (- (2 * pi / 3))))"
      by (rule np_clip_nth[OF il])
    show "?c ! i = NaN \<and> ?out ! i = NaN \<or> ?c ! i \<noteq> NaN \<and> within_range (?out ! i)"
      by (rule np_clip_range[OF il])
  qed
  ultimately have "\<exists>out. np_update_joint_position rb pinv q dx k0 dt = Inr out \<and>
           out = np_clip (np_candidate rb pinv q dx k0 dt) (- (2 * pi / 3)) (2 * pi / 3) \<and>
           length out = N_JOINTS \<and> length (np_candidate rb pinv q dx k0 dt) = N_JOINTS \<and>
           (\<forall>i<N_JOINTS.
              np_candidate rb pinv q dx k0 dt ! i =
                np_add (q ! i)
                  (np_mul (concat (np_mat_add (np_task_velocity rb pinv q dx)
                                     (np_null_space_velocity rb pinv q k0)) ! i) (Fin dt)) \<and>
              out ! i = np_minimum (Fin (2 * pi / 3))
                          (np_maximum (np_candidate rb pinv q dx k0 dt ! i) (Fin (- (2 * pi / 3)))) \<and>
              (np_candidate rb pinv q dx k0 dt ! i = NaN \<and> out ! i = NaN \<or>
               np_candidate rb pinv q dx k0 dt ! i \<noteq> NaN \<and> within_range (out ! i)))"
    using len by blast
  then show ?thesis using np_clip_range by blast
qed

lemma example_np_well_shaped:
  "length q = 7 \<Longrightarrow> length dx = 3 \<Longrightarrow> np_well_shaped example_np_robot example_np_pinv q dx k0"
  by (simp add: np_well_shaped_def example_np_robot_def example_jacobian_def example_np_pinv_def
      fin_mat_def N_JOINTS_def shape_def np_ncols_def np_col_def upt_7 list_all_iff)

theorem resolver_output_clamped_or_nan_witness:
  "np_well_shaped example_np_robot example_np_pinv
     [Fin 2, Fin 0, Fin 0, Fin 0, Fin 0, Fin 0, Fin (- 2)] [Fin 100, Fin 0, Fin 0] (Fin (1 / 2)) \<and>
   (\<exists>out. np_update_joint_position example_np_robot example_np_pinv
             [Fin 2, Fin 0, Fin 0, Fin 0, Fin 0, Fin 0, Fin (- 2)] [Fin 100, Fin 0, Fin 0]
             (Fin (1 / 2)) (32 / 1000) = Inr out \<and>
      length out = N_JOINTS \<and>
      (np_candidate example_np_robot example_np_pinv
         [Fin 2, Fin 0, Fin 0, Fin 0, Fin 0, Fin 0, Fin (- 2)] [Fin 100, Fin 0, Fin 0]
         (Fin (1 / 2)) (32 / 1000) ! 0 = NaN \<and> out ! 0 = NaN \<or>
       np_candidate example_np_robot example_np_pinv
         [Fin 2, Fin 0, Fin 0, Fin 0, Fin 0, Fin 0, Fin (- 2)] [Fin 100, Fin 0, Fin 0]
         (Fin (1 / 2)) (32 / 1000) ! 0 \<noteq> NaN \<and> within_range (out ! 0)))"
proof -
  have w: "np_well_shaped example_np_robot example_np_pinv
     [Fin 2, Fin 0, Fin 0, Fin 0, Fin 0, Fin 0, Fin (- 2)] [Fin 100, Fin 0, Fin 0] (Fin (1 / 2))"
    by (rule example_np_well_shaped) simp_all
  have "(0::nat) < N_JOINTS" by (simp add: N_JOINTS_def)
  with resolver_output_clamped_or_nan[OF w, of "32 / 1000"] w show ?thesis by blast
qed

lemma example_np_pinv_jacobian:
  "example_np_pinv (fin_mat example_jacobian) =
     [[Fin 1, Fin 0, Fin 0], [Fin 0, Fin 1, Fin 0], [Fin 0, Fin 0, Fin 1], [Fin 0, Fin 0, Fin 0],
      [Fin 0, Fin 0, Fin 0], [Fin 0, Fin 0, Fin 0], [Fin 0, Fin 0, Fin 0]]"
  by (simp add: example_np_pinv_def example_jacobian_def fin_mat_def np_ncols_def np_col_def upt_7)

lemma example_np_task_nan:
  "np_task_velocity example_np_robot example_np_pinv q [NaN, Fin 0, Fin 0] =
     [[NaN], [NaN], [NaN], [NaN], [NaN], [NaN], [NaN]]"
proof -
  have "np_task_velocity example_np_robot example_np_pinv q [NaN, Fin 0, Fin 0] =
        map (\<lambda>a. [a]) (np_matvec (example_np_pinv (fin_mat example_jacobian)) [NaN, Fin 0, Fin 0])"
    by (simp add: np_task_velocity_def Let_def example_np_robot_def)
  also have "\<dots> = [[NaN], [NaN], [NaN], [NaN], [NaN], [NaN], [NaN]]"
    unfolding example_np_pinv_jacobian by (simp add: np_matvec_def np_dot_def)
  finally show ?thesis .
qed

lemma example_np_projector:
  "np_mat_sub (np_eye N_JOINTS)
     (np_matmul (example_np_pinv (fin_mat example_jacobian)) (fin_mat example_jacobian)) =
     [[Fin 0, Fin 0, Fin 0, Fin 0, Fin 0, Fin 0, Fin 0],
      [Fin 0, Fin 0, Fin 0, Fin 0, Fin 0, Fin 0, Fin 0],
      [Fin 0, Fin 0, Fin 0, Fin 0, Fin 0, Fin 0, Fin 0],
      [Fin 0, Fin 0, Fin 0, Fin 1, Fin 0, Fin 0, Fin 0],
      [Fin 0, Fin 0, Fin 0, Fin 0, Fin 1, Fin 0, Fin 0],
      [Fin 0, Fin 0, Fin 0, Fin 0, Fin 0, Fin 1, Fin 0],
      [Fin 0, Fin 0, Fin 0, Fin 0, Fin 0, Fin 0, Fin 1]]"
  unfolding example_np_pinv_jacobian
  by (simp add: np_matmul_def np_mat_sub_def np_sub_def np_eye_def np_dot_def np_col_def
      np_ncols_def example_jacobian_def fin_mat_def N_JOINTS_def upt_7)

lemma example_np_null_space_zero:
  "np_null_space_velocity example_np_robot example_np_pinv
     [Fin 0, Fin 0, Fin 0, Fin 0, Fin 0, Fin 0, Fin 0] (Fin 0) =
     [[Fin 0], [Fin 0], [Fin 0], [Fin 0], [Fin 0], [Fin 0], [Fin 0]]"
proof -
  have "np_null_space_velocity example_np_robot example_np_pinv
          [Fin 0, Fin 0, Fin 0, Fin 0, Fin 0, Fin 0, Fin 0] (Fin 0) =
        np_matmul (np_mat_sub (np_eye N_JOINTS)
          (np_matmul (example_np_pinv (fin_mat example_jacobian)) (fin_mat example_jacobian)))
          [[Fin 0], [Fin 0], [Fin 0], [Fin 0], [Fin 0], [Fin 0], [Fin 0]]"
    by (simp add: np_null_space_velocity_def Let_def example_np_robot_def)
  also have "\<dots> = [[Fin 0], [Fin 0], [Fin 0], [Fin 0], [Fin 0], [Fin 0], [Fin 0]]"
    unfolding example_np_projector
    by (simp add: np_matmul_def np_dot_def np_col_def np_ncols_def)
  finally show ?thesis .
qed

lemma example_np_candidate_nan:
  "np_candidate example_np_robot example_np_pinv
     [Fin 0, Fin 0, Fin 0, Fin 0, Fin 0, Fin 0, Fin 0] [NaN, Fin 0, Fin 0] (Fin 0) (32 / 1000) =
     [NaN, NaN, NaN, NaN, NaN, NaN, NaN]"
  unfolding np_candidate_def Let_def example_np_task_nan example_np_null_space_zero
  by (simp add: np_mat_add_def)


text \<open>
  The claim as stated fails on an input the driver can receive: a NaN in the \<open>linear.x\<close>
  field of the twist command makes every entry of the candidate NaN, and \<open>np.clip\<close> passes
  NaN through, so no entry of the result lies within the actuation range.
\<close>

theorem resolver_output_nan_counterexample:
  "np_well_shaped example_np_robot example_np_pinv
     [Fin 0, Fin 0, Fin 0, Fin 0, Fin 0, Fin 0, Fin 0] [NaN, Fin 0, Fin 0] (Fin 0) \<and>
   np_update_joint_position example_np_robot example_np_pinv
     [Fin 0, Fin 0, Fin 0, Fin 0, Fin 0, Fin 0, Fin 0] [NaN, Fin 0, Fin 0] (Fin 0) (32 / 1000) =
     Inr [NaN, NaN, NaN, NaN, NaN, NaN, NaN] \<and>
   \<not> within_range ([NaN, NaN, NaN, NaN, NaN, NaN, NaN] ! 0)"
proof -
  have w: "np_well_shaped example_np_robot example_np_pinv
     [Fin 0, Fin 0, Fin 0, Fin 0, Fin 0, Fin 0, Fin 0] [NaN, Fin 0, Fin 0] (Fin 0)"
    by (rule example_np_well_shaped) simp_all
  have "np_update_joint_position example_np_robot example_np_pinv
     [Fin 0, Fin 0, Fin 0, Fin 0, Fin 0, Fin 0, Fin 0] [NaN, Fin 0, Fin 0] (Fin 0) (32 / 1000) =
     Inr (np_clip [NaN, NaN, NaN, NaN, NaN, NaN, NaN] (- RAD_120) RAD_120)"
    using w by (simp only: np_update_joint_position_def example_np_candidate_nan
        not_True_eq_False if_False)
  then show ?thesis using w by (simp add: np_clip_def)
qed

end
